theory Spec2Isabelle
  imports Complex_Main "HOL-Library.Word"
begin

section \<open>The viewer client of the pool server: scripts/viewer.py\<close>

text \<open>
  The theory embeds the class \<open>Viewer\<close> of \<open>scripts/viewer.py\<close>: its constructor, the
  periodic task \<open>update\<close>, the three event handlers and \<open>exit\<close>. Mutation of \<open>self\<close> is
  explicit state passing on a record; a raised exception is the left summand of the
  result; what the operating system and the peer do in one tick (the outcome of
  \<open>connect\<close>, the messages the transport decodes) is an argument of the tick.
\<close>

subsection \<open>Values exchanged with the server\<close>

type_synonym Address = "string \<times> int"

text \<open>A \<open>uuid.UUID\<close> is a 128-bit integer.\<close>

type_synonym UUID = "128 word"

text \<open>
  What \<open>socket.connect\<close> raises is an \<open>OSError\<close> with an error number: Python names the
  one of \<open>ECONNREFUSED\<close> \<open>ConnectionRefusedError\<close>, the one of \<open>EINPROGRESS\<close> (a connect
  that is not ready yet, on a non-blocking socket) \<open>BlockingIOError\<close> and the one of
  \<open>ETIMEDOUT\<close> \<open>TimeoutError\<close>.
\<close>

datatype errno = ECONNREFUSED | EINPROGRESS | ETIMEDOUT | ENETUNREACH

text \<open>The Python exceptions that the modelled code can raise or let through.\<close>

datatype exn =
    OSError errno
  | AttributeError
  | IndexError
  | NotImplementedError

text \<open>
  Modelled from the spec: \<open>msgutil.ConnectionType\<close> is not part of the sources; the
  viewer only ever names its member \<open>VIEWER\<close>.
\<close>

datatype ConnectionType = VIEWER | OTHER_KIND

text \<open>
  The simulation state of \<open>pooltool\<close> is opaque to the viewer, which reads only its clock
  \<open>t\<close>. The clock is a float that is handed on unchanged and never computed with; it is
  modelled as a rational.
\<close>

record System =
  payload :: nat
  System_t :: rat

datatype Player = Player (player_name: string)

record ShotInfo =
  player :: Player
  game_over :: bool
  winner :: "Player option"

text \<open>A Python dict keeps insertion order: the scores are an association list.\<close>

type_synonym Scores = "(string \<times> int) list"

text \<open>
  Modelled from the spec: the message classes of \<open>msgutil\<close> are not part of the sources.
  The fields are the ones \<open>viewer.py\<close> reads or passes.
\<close>

datatype Message =
    LoginMessage string "UUID option" ConnectionType
  | LoginSuccessMessage UUID
  | LoginFailedMessage string
  | ConnectionClosedMessage
  | BroadcastMessage System ShotInfo Scores

subsection \<open>The socket and the message buffer\<close>

text \<open>
  \<open>socket.socket(AF_INET, SOCK_STREAM)\<close> creates a socket in blocking mode. The record
  keeps the mode, whether the socket is connected or closed, and the addresses of all
  \<open>connect\<close> calls made on it.
\<close>

record Socket =
  blocking :: bool
  connected :: bool
  closed :: bool
  connect_calls :: "Address list"

definition socket_new :: Socket where
  "socket_new = \<lparr>blocking = True, connected = False, closed = False, connect_calls = []\<rparr>"

text \<open>What the operating system answers to one \<open>connect\<close>.\<close>

datatype connect_result = Connects | Fails errno

definition sock_connect :: "connect_result \<Rightarrow> Address \<Rightarrow> Socket \<Rightarrow> errno option \<times> Socket" where
  "sock_connect r a s =
     (case r of
        Connects \<Rightarrow> (None, s\<lparr>connected := True, connect_calls := connect_calls s @ [a]\<rparr>)
      | Fails e \<Rightarrow> (Some e, s\<lparr>connect_calls := connect_calls s @ [a]\<rparr>))"

definition setblocking :: "bool \<Rightarrow> Socket \<Rightarrow> Socket" where
  "setblocking f s = s\<lparr>blocking := f\<rparr>"

definition sock_close :: "Socket \<Rightarrow> Socket" where
  "sock_close s = s\<lparr>closed := True, connected := False\<rparr>"

text \<open>
  Modelled from the spec: \<open>msgutil.MessageBuffer\<close> is not part of the sources. It holds the
  messages handed to \<open>push_msg\<close>, in order, and the queue of decoded incoming messages;
  \<open>update\<close> (the spec's poll) appends what the stream delivered in this tick, \<open>pop_msg\<close>
  takes the head of the queue or answers \<open>None\<close>.
\<close>

record MessageBuffer =
  pushed :: "Message list"
  incoming :: "Message list"

definition MessageBuffer_new :: MessageBuffer where
  "MessageBuffer_new = \<lparr>pushed = [], incoming = []\<rparr>"

definition push_msg :: "Message \<Rightarrow> MessageBuffer \<Rightarrow> MessageBuffer" where
  "push_msg m b = b\<lparr>pushed := pushed b @ [m]\<rparr>"

definition MessageBuffer_update :: "Message list \<Rightarrow> MessageBuffer \<Rightarrow> MessageBuffer" where
  "MessageBuffer_update arrived b = b\<lparr>incoming := incoming b @ arrived\<rparr>"

definition pop_msg :: "MessageBuffer \<Rightarrow> Message option \<times> MessageBuffer" where
  "pop_msg b =
     (case incoming b of
        [] \<Rightarrow> (None, b)
      | m # ms \<Rightarrow> (Some m, b\<lparr>incoming := ms\<rparr>))"

subsection \<open>The viewer\<close>

datatype ViewerState = WaitingForConnection | ConnectionPending | Viewing

fun ViewerState_value :: "ViewerState \<Rightarrow> nat" where
  "ViewerState_value WaitingForConnection = 0"
| "ViewerState_value ConnectionPending = 1"
| "ViewerState_value Viewing = 2"

text \<open>
  The attribute \<open>self.state\<close> can hold any Python object; every object that is not a member
  of the enumeration takes the last branch of \<open>update\<close> and is one value here.
\<close>

datatype StateAttr = Member ViewerState | Not_a_member

text \<open>Events sent through the messenger, with their arguments.\<close>

datatype Event =
    Ev_game_over string rat
  | Ev_update_score Scores rat
  | Ev_animate_shot

text \<open>Calls made on the \<open>SystemController\<close> of \<open>pooltool\<close>, which is external.\<close>

datatype ControllerCall =
    Attach_system System
  | Buildup
  | Build_shot_animation
  | Cue_hide_nodes
  | Animate
  | Advance_to_end_of_stroke

datatype LogLevel = INFO | WARNING

text \<open>
  The four log lines of \<open>update\<close>: \<open>Server disconnected!\<close>, \<open>Connected! Secret: ...\<close>,
  \<open>Failed to connect! ...\<close> and \<open>Unexpected message!\<close>.
\<close>

datatype LogText =
    Server_disconnected
  | Connected_secret UUID
  | Failed_to_connect string
  | Unexpected_message

record Viewer =
  address :: Address
  system :: System
  controller :: "ControllerCall list"
  state :: StateAttr
  sock :: Socket
  buffer :: "MessageBuffer option"
  name :: string
  secret :: "UUID option"
  score_display :: string
  turn_indicator :: string
  game_over_text :: string
  game_over_shown :: bool
  messenger :: "Event list"
  logged :: "(LogLevel \<times> LogText) list"

text \<open>
  The constructor. The initial system comes from \<open>pooltool\<close> and the secret is already
  parsed by \<open>uuid.UUID\<close>; both are arguments. The attribute \<open>buffer\<close> is only annotated,
  not assigned: it is absent until the connection is made.
\<close>

definition Viewer_init :: "Address \<Rightarrow> string \<Rightarrow> UUID option \<Rightarrow> System \<Rightarrow> Viewer" where
  "Viewer_init a n s sys0 =
     \<lparr>address = a,
      system = sys0,
      controller = [Attach_system sys0, Buildup, Cue_hide_nodes],
      state = Member WaitingForConnection,
      sock = socket_new,
      buffer = None,
      name = n,
      secret = s,
      score_display = [],
      turn_indicator = [],
      game_over_text = [],
      game_over_shown = False,
      messenger = [],
      logged = []\<rparr>"

subsection \<open>Text formatting\<close>

text \<open>\<open>str.upper\<close> on ASCII text; other bytes are left as they are.\<close>

definition upper_char :: "char \<Rightarrow> char" where
  "upper_char c =
     (if 97 \<le> (of_char c :: nat) \<and> (of_char c :: nat) \<le> 122
      then char_of ((of_char c :: nat) - 32) else c)"

definition upper :: "string \<Rightarrow> string" where
  "upper s = map upper_char s"

definition digit_char :: "nat \<Rightarrow> char" where
  "digit_char d = char_of (48 + d)"

function str_nat :: "nat \<Rightarrow> string" where
  "str_nat n = (if n < 10 then [digit_char n] else str_nat (n div 10) @ [digit_char (n mod 10)])"
  by pat_completeness auto
termination
  by (relation "measure id") auto

declare str_nat.simps [simp del]

text \<open>\<open>str\<close> of a Python integer.\<close>

definition str_int :: "int \<Rightarrow> string" where
  "str_int i = (if i < 0 then CHR ''-'' # str_nat (nat (- i)) else str_nat (nat i))"

text \<open>Indexing a Python list with a non-negative index.\<close>

definition index :: "'a list \<Rightarrow> nat \<Rightarrow> exn + 'a" where
  "index xs i = (if i < length xs then Inr (xs ! i) else Inl IndexError)"

subsection \<open>The event handlers\<close>

text \<open>
  A handler is a coroutine: it pauses, acts on the viewer, and may pause and act again.
  It is the list of its segments, each the length of the pause and the code run when the
  pause is over.
\<close>

type_synonym Coroutine = "(rat \<times> (Viewer \<Rightarrow> exn + Viewer)) list"

definition on_game_over :: "string \<Rightarrow> rat \<Rightarrow> Coroutine" where
  "on_game_over w wait =
     [(wait, \<lambda>v. Inr (v\<lparr>game_over_text := ''GAME OVER! '' @ upper w @ '' WON!'',
                         game_over_shown := True\<rparr>)),
      (5 / 2, \<lambda>v. Inr (v\<lparr>game_over_shown := False\<rparr>))]"

definition update_score_resumed :: "Scores \<Rightarrow> Viewer \<Rightarrow> exn + Viewer" where
  "update_score_resumed scores v =
     (let player_names = map fst scores;
          player_scores = map snd scores
      in case index player_names 0 of Inl e \<Rightarrow> Inl e | Inr n0 \<Rightarrow>
         (case index player_scores 0 of Inl e \<Rightarrow> Inl e | Inr s0 \<Rightarrow>
         (case index player_names 1 of Inl e \<Rightarrow> Inl e | Inr n1 \<Rightarrow>
         (case index player_scores 1 of Inl e \<Rightarrow> Inl e | Inr s1 \<Rightarrow>
            Inr (v\<lparr>score_display :=
                     upper n0 @ '': '' @ str_int s0 @ '' vs. '' @ upper n1 @ '': '' @ str_int s1\<rparr>)))))"

definition update_score :: "Scores \<Rightarrow> rat \<Rightarrow> Coroutine" where
  "update_score scores wait = [(wait, update_score_resumed scores)]"

definition animate_shot :: Coroutine where
  "animate_shot =
     [(3 / 2, \<lambda>v. Inr (v\<lparr>controller := controller v @ [Animate, Advance_to_end_of_stroke]\<rparr>))]"

text \<open>The three \<open>accept\<close> calls of the constructor bind each event to its handler.\<close>

fun accept :: "Event \<Rightarrow> Coroutine" where
  "accept (Ev_game_over w wait) = on_game_over w wait"
| "accept (Ev_update_score scores wait) = update_score scores wait"
| "accept Ev_animate_shot = animate_shot"

text \<open>The pauses of a coroutine, in order; the first is the delay before it first acts.\<close>

definition pauses :: "Coroutine \<Rightarrow> rat list" where
  "pauses c = map fst c"

text \<open>A coroutine run to its end on a viewer: the segments in order, up to the first exception.\<close>

fun play :: "Coroutine \<Rightarrow> Viewer \<Rightarrow> exn + Viewer" where
  "play [] v = Inr v"
| "play ((d, k) # c) v = (case k v of Inl e \<Rightarrow> Inl e | Inr v1 \<Rightarrow> play c v1)"

subsection \<open>The tick\<close>

datatype TaskResult = Again | Done

text \<open>
  One tick sees the answer of the operating system to a \<open>connect\<close> (read only while waiting
  for the connection) and the messages the transport decodes in this poll.
\<close>

type_synonym TickEnv = "connect_result \<times> Message list"

definition log_to :: "LogLevel \<Rightarrow> LogText \<Rightarrow> Viewer \<Rightarrow> Viewer" where
  "log_to l m v = v\<lparr>logged := logged v @ [(l, m)]\<rparr>"

text \<open>The branch of \<open>update\<close> for a \<open>BroadcastMessage\<close> (lines 125 to 135).\<close>

definition on_broadcast :: "System \<Rightarrow> ShotInfo \<Rightarrow> Scores \<Rightarrow> Viewer \<Rightarrow> exn + Viewer" where
  "on_broadcast msg_system shot_info scores v =
     (let v1 = v\<lparr>turn_indicator := ''Active player: '' @ upper (player_name (player shot_info))\<rparr>;
          v2 = v1\<lparr>system := msg_system\<rparr>
      in if game_over shot_info
         then (case winner shot_info of
                 None \<Rightarrow> Inl AttributeError
               | Some w \<Rightarrow>
                   Inr (v2\<lparr>messenger := messenger v2 @
                              [Ev_game_over (player_name w) (System_t msg_system),
                               Ev_update_score scores (System_t msg_system),
                               Ev_animate_shot],
                           controller := controller v2 @
                              [Attach_system msg_system, Buildup, Build_shot_animation,
                               Cue_hide_nodes]\<rparr>))
         else Inr (v2\<lparr>messenger := messenger v2 @
                        [Ev_update_score scores (System_t msg_system), Ev_animate_shot],
                      controller := controller v2 @
                        [Attach_system msg_system, Buildup, Build_shot_animation,
                         Cue_hide_nodes]\<rparr>))"

definition update :: "TickEnv \<Rightarrow> Viewer \<Rightarrow> exn + (Viewer \<times> TaskResult)" where
  "update env v =
     (if state v = Member WaitingForConnection then
        (case sock_connect (fst env) (address v) (sock v) of
           (Some e, s1) \<Rightarrow>
             (if e = ECONNREFUSED then Inr (v\<lparr>sock := s1\<rparr>, Again) else Inl (OSError e))
         | (None, s1) \<Rightarrow>
             Inr (v\<lparr>sock := setblocking False s1,
                    buffer := Some (push_msg (LoginMessage (name v) (secret v) VIEWER)
                                      MessageBuffer_new),
                    state := Member ConnectionPending\<rparr>, Again))
      else if state v = Member ConnectionPending then
        (case buffer v of
           None \<Rightarrow> Inl AttributeError
         | Some b \<Rightarrow>
             (case pop_msg (MessageBuffer_update (snd env) b) of
                (None, b1) \<Rightarrow> Inr (v\<lparr>buffer := Some b1\<rparr>, Again)
              | (Some msg, b1) \<Rightarrow>
                  (case msg of
                     ConnectionClosedMessage \<Rightarrow>
                       Inr (log_to INFO Server_disconnected (v\<lparr>buffer := Some b1\<rparr>), Done)
                   | LoginSuccessMessage s \<Rightarrow>
                       Inr ((log_to INFO (Connected_secret s) (v\<lparr>buffer := Some b1\<rparr>))
                              \<lparr>state := Member Viewing\<rparr>, Again)
                   | LoginFailedMessage reason \<Rightarrow>
                       Inr (log_to INFO (Failed_to_connect reason) (v\<lparr>buffer := Some b1\<rparr>), Done)
                   | _ \<Rightarrow>
                       Inr (log_to WARNING Unexpected_message (v\<lparr>buffer := Some b1\<rparr>), Again))))
      else if state v = Member Viewing then
        (case buffer v of
           None \<Rightarrow> Inl AttributeError
         | Some b \<Rightarrow>
             (case pop_msg (MessageBuffer_update (snd env) b) of
                (None, b1) \<Rightarrow> Inr (v\<lparr>buffer := Some b1\<rparr>, Again)
              | (Some msg, b1) \<Rightarrow>
                  (case msg of
                     ConnectionClosedMessage \<Rightarrow>
                       Inr (log_to INFO Server_disconnected (v\<lparr>buffer := Some b1\<rparr>), Done)
                   | BroadcastMessage msg_system shot_info scores \<Rightarrow>
                       (case on_broadcast msg_system shot_info scores (v\<lparr>buffer := Some b1\<rparr>) of
                          Inl e \<Rightarrow> Inl e
                        | Inr v1 \<Rightarrow> Inr (v1, Again))
                   | _ \<Rightarrow>
                       Inr (log_to WARNING Unexpected_message (v\<lparr>buffer := Some b1\<rparr>), Again))))
      else Inl NotImplementedError)"

definition exit :: "Viewer \<Rightarrow> Viewer" where
  "exit v = v\<lparr>sock := sock_close (sock v)\<rparr>"

text \<open>
  The task manager calls \<open>update\<close> again after \<open>task.again\<close>, drops the task after
  \<open>task.done\<close> and lets an exception through. \<open>run\<close> lists the result of every tick that is
  executed, for the environments of the successive ticks.
\<close>

fun run :: "Viewer \<Rightarrow> TickEnv list \<Rightarrow> (exn + (Viewer \<times> TaskResult)) list" where
  "run v [] = []"
| "run v (env # envs) =
     (case update env v of
        Inl e \<Rightarrow> [Inl e]
      | Inr (v1, Done) \<Rightarrow> [Inr (v1, Done)]
      | Inr (v1, Again) \<Rightarrow> Inr (v1, Again) # run v1 envs)"

text \<open>The viewers after the ticks that returned.\<close>

fun viewers :: "(exn + (Viewer \<times> TaskResult)) list \<Rightarrow> Viewer list" where
  "viewers [] = []"
| "viewers (Inl e # rs) = viewers rs"
| "viewers (Inr (v, r) # rs) = v # viewers rs"

section \<open>One tick in each state\<close>

lemma pop_after_update_Cons:
  "incoming b @ arrived = m # ms \<Longrightarrow>
   pop_msg (MessageBuffer_update arrived b) = (Some m, b\<lparr>incoming := ms\<rparr>)"
  by (simp add: pop_msg_def MessageBuffer_update_def)

lemma pop_after_update_Nil:
  "incoming b @ arrived = [] \<Longrightarrow> pop_msg (MessageBuffer_update arrived b) = (None, b)"
  by (simp add: pop_msg_def MessageBuffer_update_def)

lemma pop_keeps_pushed:
  "pop_msg (MessageBuffer_update arrived b) = (r, b1) \<Longrightarrow> pushed b1 = pushed b"
  by (auto simp: pop_msg_def MessageBuffer_update_def split: list.splits)

lemma update_Waiting_refused:
  "state v = Member WaitingForConnection \<Longrightarrow>
   update (Fails ECONNREFUSED, arrived) v =
     Inr (v\<lparr>sock := (sock v)\<lparr>connect_calls := connect_calls (sock v) @ [address v]\<rparr>\<rparr>, Again)"
  by (simp add: update_def sock_connect_def)

lemma update_Waiting_fails:
  "state v = Member WaitingForConnection \<Longrightarrow> e \<noteq> ECONNREFUSED \<Longrightarrow>
   update (Fails e, arrived) v = Inl (OSError e)"
  by (simp add: update_def sock_connect_def)

lemma update_Waiting_connects:
  "state v = Member WaitingForConnection \<Longrightarrow>
   update (Connects, arrived) v =
     Inr (v\<lparr>sock := (sock v)\<lparr>connected := True,
                              connect_calls := connect_calls (sock v) @ [address v],
                              blocking := False\<rparr>,
            buffer := Some \<lparr>pushed = [LoginMessage (name v) (secret v) VIEWER], incoming = []\<rparr>,
            state := Member ConnectionPending\<rparr>, Again)"
  by (simp add: update_def sock_connect_def setblocking_def push_msg_def MessageBuffer_new_def)

lemma update_Pending_msg:
  assumes "state v = Member ConnectionPending" "buffer v = Some b"
    and "incoming b @ arrived = m # ms"
  shows "update (c, arrived) v =
     (case m of
        ConnectionClosedMessage \<Rightarrow>
          Inr (v\<lparr>buffer := Some (b\<lparr>incoming := ms\<rparr>),
                 logged := logged v @ [(INFO, Server_disconnected)]\<rparr>, Done)
      | LoginSuccessMessage s \<Rightarrow>
          Inr (v\<lparr>buffer := Some (b\<lparr>incoming := ms\<rparr>),
                 logged := logged v @ [(INFO, Connected_secret s)],
                 state := Member Viewing\<rparr>, Again)
      | LoginFailedMessage reason \<Rightarrow>
          Inr (v\<lparr>buffer := Some (b\<lparr>incoming := ms\<rparr>),
                 logged := logged v @ [(INFO, Failed_to_connect reason)]\<rparr>, Done)
      | _ \<Rightarrow>
          Inr (v\<lparr>buffer := Some (b\<lparr>incoming := ms\<rparr>),
                 logged := logged v @ [(WARNING, Unexpected_message)]\<rparr>, Again))"
  using assms
  by (simp add: update_def pop_after_update_Cons log_to_def split: Message.splits)

lemma update_Pending_none:
  assumes "state v = Member ConnectionPending" "buffer v = Some b"
    and "incoming b @ arrived = []"
  shows "update (c, arrived) v = Inr (v, Again)"
  using assms by (simp add: update_def pop_after_update_Nil)

lemma on_broadcast_wf:
  assumes "game_over si \<longrightarrow> winner si \<noteq> None"
  shows "on_broadcast sys si scores v =
     Inr (v\<lparr>turn_indicator := ''Active player: '' @ upper (player_name (player si)),
            system := sys,
            messenger := messenger v @
              (if game_over si then [Ev_game_over (player_name (the (winner si))) (System_t sys)]
               else []) @
              [Ev_update_score scores (System_t sys), Ev_animate_shot],
            controller := controller v @
              [Attach_system sys, Buildup, Build_shot_animation, Cue_hide_nodes]\<rparr>)"
  using assms by (auto simp: on_broadcast_def Let_def)

lemma update_Viewing_msg:
  assumes "state v = Member Viewing" "buffer v = Some b"
    and "incoming b @ arrived = m # ms"
  shows "update (c, arrived) v =
     (case m of
        ConnectionClosedMessage \<Rightarrow>
          Inr (v\<lparr>buffer := Some (b\<lparr>incoming := ms\<rparr>),
                 logged := logged v @ [(INFO, Server_disconnected)]\<rparr>, Done)
      | BroadcastMessage sys si scores \<Rightarrow>
          (case on_broadcast sys si scores (v\<lparr>buffer := Some (b\<lparr>incoming := ms\<rparr>)\<rparr>) of
             Inl e \<Rightarrow> Inl e
           | Inr v1 \<Rightarrow> Inr (v1, Again))
      | _ \<Rightarrow>
          Inr (v\<lparr>buffer := Some (b\<lparr>incoming := ms\<rparr>),
                 logged := logged v @ [(WARNING, Unexpected_message)]\<rparr>, Again))"
  using assms
  by (simp add: update_def pop_after_update_Cons log_to_def split: Message.splits)

lemma update_Viewing_none:
  assumes "state v = Member Viewing" "buffer v = Some b"
    and "incoming b @ arrived = []"
  shows "update (c, arrived) v = Inr (v, Again)"
  using assms by (simp add: update_def pop_after_update_Nil)

lemma update_Not_a_member: "state v = Not_a_member \<Longrightarrow> update env v = Inl NotImplementedError"
  by (simp add: update_def)

lemma on_broadcast_state:
  "on_broadcast sys si scores v = Inr v1 \<Longrightarrow>
   state v1 = state v \<and> buffer v1 = buffer v \<and> name v1 = name v \<and> secret v1 = secret v
   \<and> sock v1 = sock v \<and> logged v1 = logged v"
  by (auto simp: on_broadcast_def Let_def split: if_splits option.splits)

lemma update_state_step:
  assumes "update env v = Inr (v1, r)"
  shows "(state v = Member WaitingForConnection \<and>
            (state v1 = Member WaitingForConnection \<or> state v1 = Member ConnectionPending)) \<or>
         (state v = Member ConnectionPending \<and>
            (state v1 = Member ConnectionPending \<or> state v1 = Member Viewing)) \<or>
         (state v = Member Viewing \<and> state v1 = Member Viewing)"
  using assms
  by (auto simp: update_def sock_connect_def log_to_def
      split: if_splits connect_result.splits option.splits prod.splits Message.splits sum.splits
      dest: on_broadcast_state)

lemma exit_closes_socket: "closed (sock (exit v)) \<and> \<not> connected (sock (exit v))"
  by (simp add: exit_def sock_close_def)

section \<open>Runs of the task\<close>

lemma run_Again:
  "update env v = Inr (v1, Again) \<Longrightarrow> run v (env # envs) = Inr (v1, Again) # run v1 envs"
  by simp

lemma run_Done:
  "update env v = Inr (v1, Done) \<Longrightarrow> run v (env # envs) = [Inr (v1, Done)]"
  by simp

lemma run_Inl:
  "update env v = Inl e \<Longrightarrow> run v (env # envs) = [Inl e]"
  by simp

lemma viewers_run_Cons:
  "viewers (run v (env # envs)) =
     (case update env v of
        Inl e \<Rightarrow> []
      | Inr (v1, r) \<Rightarrow> v1 # (case r of Done \<Rightarrow> [] | Again \<Rightarrow> viewers (run v1 envs)))"
  by (simp split: sum.splits prod.splits TaskResult.splits)

lemma run_invariant:
  assumes step: "\<And>env v v1 r. I v \<Longrightarrow> update env v = Inr (v1, r) \<Longrightarrow> I v1"
    and "I v"
  shows "\<forall>w \<in> set (viewers (run v envs)). I w"
  using \<open>I v\<close>
proof (induction envs arbitrary: v)
  case Nil
  then show ?case by simp
next
  case (Cons env envs)
  show ?case
  proof (cases "update env v")
    case (Inl e)
    then show ?thesis by simp
  next
    case (Inr p)
    obtain v1 r where p: "p = (v1, r)" by (cases p)
    have "I v1" using step [OF Cons.prems] Inr p by simp
    then show ?thesis using Cons.IH [of v1] Inr p by (cases r) auto
  qed
qed

lemma run_Viewing_states:
  "state v = Member Viewing \<Longrightarrow>
   map state (viewers (run v envs)) = replicate (length (viewers (run v envs))) (Member Viewing)"
proof (induction envs arbitrary: v)
  case Nil
  then show ?case by simp
next
  case (Cons env envs)
  show ?case
  proof (cases "update env v")
    case (Inl e)
    then show ?thesis by simp
  next
    case (Inr p)
    obtain v1 r where p: "p = (v1, r)" by (cases p)
    have "state v1 = Member Viewing"
      using update_state_step [of env v v1 r] Inr p Cons.prems by simp
    then show ?thesis using Cons.IH [of v1] Inr p by (cases r) auto
  qed
qed

lemma run_Pending_states:
  "state v = Member ConnectionPending \<Longrightarrow>
   \<exists>k m. map state (viewers (run v envs)) =
     replicate k (Member ConnectionPending) @ replicate m (Member Viewing)"
proof (induction envs arbitrary: v)
  case Nil
  then show ?case by simp
next
  case (Cons env envs)
  show ?case
  proof (cases "update env v")
    case (Inl e)
    then show ?thesis by simp
  next
    case (Inr p)
    obtain v1 r where p: "p = (v1, r)" by (cases p)
    have st: "state v1 = Member ConnectionPending \<or> state v1 = Member Viewing"
      using update_state_step [of env v v1 r] Inr p Cons.prems by simp
    show ?thesis
    proof (cases r)
      case Done
      have "map state (viewers (run v (env # envs))) = [state v1]"
        using Inr p Done by simp
      then show ?thesis using st
        by (metis append_Nil append_Nil2 replicate_0 replicate.simps(2))
    next
      case Again
      have eq: "map state (viewers (run v (env # envs))) = state v1 # map state (viewers (run v1 envs))"
        using Inr p Again by simp
      from st show ?thesis
      proof
        assume s1: "state v1 = Member ConnectionPending"
        from Cons.IH [OF s1] obtain k m where
          "map state (viewers (run v1 envs)) =
             replicate k (Member ConnectionPending) @ replicate m (Member Viewing)" by blast
        then have "map state (viewers (run v (env # envs))) =
             replicate (Suc k) (Member ConnectionPending) @ replicate m (Member Viewing)"
          using eq s1 by simp
        then show ?thesis by blast
      next
        assume s1: "state v1 = Member Viewing"
        have "map state (viewers (run v (env # envs))) =
             replicate 0 (Member ConnectionPending) @
             replicate (Suc (length (viewers (run v1 envs)))) (Member Viewing)"
          using eq s1 run_Viewing_states [OF s1, of envs] by simp
        then show ?thesis by blast
      qed
    qed
  qed
qed

lemma run_Waiting_states:
  "state v = Member WaitingForConnection \<Longrightarrow>
   \<exists>j k m. map state (viewers (run v envs)) =
     replicate j (Member WaitingForConnection) @
     replicate k (Member ConnectionPending) @ replicate m (Member Viewing)"
proof (induction envs arbitrary: v)
  case Nil
  then show ?case by simp
next
  case (Cons env envs)
  show ?case
  proof (cases "update env v")
    case (Inl e)
    then show ?thesis by simp
  next
    case (Inr p)
    obtain v1 r where p: "p = (v1, r)" by (cases p)
    have st: "state v1 = Member WaitingForConnection \<or> state v1 = Member ConnectionPending"
      using update_state_step [of env v v1 r] Inr p Cons.prems by simp
    have "\<exists>j k m. map state (viewers (run v1 envs)) =
        replicate j (Member WaitingForConnection) @
        replicate k (Member ConnectionPending) @ replicate m (Member Viewing)
        \<and> (state v1 = Member ConnectionPending \<longrightarrow> j = 0)"
    proof (rule disjE [OF st])
      assume "state v1 = Member WaitingForConnection"
      then show ?thesis using Cons.IH [of v1] by auto
    next
      assume s1: "state v1 = Member ConnectionPending"
      from run_Pending_states [OF s1, of envs] obtain k m where
        "map state (viewers (run v1 envs)) =
           replicate k (Member ConnectionPending) @ replicate m (Member Viewing)" by blast
      then have "map state (viewers (run v1 envs)) =
           replicate 0 (Member WaitingForConnection) @
           replicate k (Member ConnectionPending) @ replicate m (Member Viewing)" by simp
      then show ?thesis by blast
    qed
    then obtain j k m where tl: "map state (viewers (run v1 envs)) =
        replicate j (Member WaitingForConnection) @
        replicate k (Member ConnectionPending) @ replicate m (Member Viewing)"
      and j0: "state v1 = Member ConnectionPending \<longrightarrow> j = 0" by blast
    show ?thesis
    proof (cases r)
      case Done
      have eq: "map state (viewers (run v (env # envs))) = [state v1]"
        using Inr p Done by simp
      from st show ?thesis
      proof
        assume "state v1 = Member WaitingForConnection"
        then have "map state (viewers (run v (env # envs))) =
          replicate (Suc 0) (Member WaitingForConnection) @
          replicate 0 (Member ConnectionPending) @ replicate 0 (Member Viewing)"
          using eq by simp
        then show ?thesis by blast
      next
        assume "state v1 = Member ConnectionPending"
        then have "map state (viewers (run v (env # envs))) =
          replicate 0 (Member WaitingForConnection) @
          replicate (Suc 0) (Member ConnectionPending) @ replicate 0 (Member Viewing)"
          using eq by simp
        then show ?thesis by blast
      qed
    next
      case Again
      have eq: "map state (viewers (run v (env # envs))) = state v1 # map state (viewers (run v1 envs))"
        using Inr p Again by simp
      from st show ?thesis
      proof
        assume "state v1 = Member WaitingForConnection"
        then have "map state (viewers (run v (env # envs))) =
          replicate (Suc j) (Member WaitingForConnection) @
          replicate k (Member ConnectionPending) @ replicate m (Member Viewing)"
          using eq tl by simp
        then show ?thesis by blast
      next
        assume s1: "state v1 = Member ConnectionPending"
        then have "map state (viewers (run v (env # envs))) =
          replicate 0 (Member WaitingForConnection) @
          replicate (Suc k) (Member ConnectionPending) @ replicate m (Member Viewing)"
          using eq tl j0 by simp
        then show ?thesis by blast
      qed
    qed
  qed
qed

lemma update_NotImplementedError_iff:
  "update env v = Inl NotImplementedError \<longleftrightarrow> state v = Not_a_member"
proof (cases "state v")
  case (Member st)
  then show ?thesis
    by (cases st)
      (auto simp: update_def sock_connect_def on_broadcast_def Let_def
        split: connect_result.splits option.splits prod.splits Message.splits sum.splits if_splits)
next
  case Not_a_member
  then show ?thesis by (simp add: update_def)
qed

lemma run_NotImplementedError:
  "state v \<noteq> Not_a_member \<Longrightarrow> Inl NotImplementedError \<notin> set (run v envs)"
proof (induction envs arbitrary: v)
  case Nil
  then show ?case by simp
next
  case (Cons env envs)
  show ?case
  proof (cases "update env v")
    case (Inl e)
    then have "e \<noteq> NotImplementedError"
      using update_NotImplementedError_iff [of env v] Cons.prems by auto
    then show ?thesis using Inl by simp
  next
    case (Inr p)
    obtain v1 r where p: "p = (v1, r)" by (cases p)
    have "state v1 \<noteq> Not_a_member"
      using update_state_step [of env v v1 r] Inr p by auto
    then show ?thesis using Cons.IH [of v1] Inr p by (cases r) auto
  qed
qed

section \<open>Properties of the session\<close>

lemma run_member_states:
  "state v \<noteq> Not_a_member \<Longrightarrow> \<forall>w \<in> set (viewers (run v envs)). state w \<noteq> Not_a_member"
proof (rule run_invariant [where I = "\<lambda>v. state v \<noteq> Not_a_member"])
  fix env v v1 r
  assume "update env v = Inr (v1, r)"
  then show "state v1 \<noteq> Not_a_member"
    using update_state_step [of env v v1 r] by auto
qed

text \<open>
  C8. A tick on a viewer whose state is not a member of the enumeration raises
  \<open>NotImplementedError\<close>, which ends the run; and no run from the
  constructed viewer ever raises it or reaches such a state.
\<close>

theorem unknown_state_is_fatal_and_unreachable:
  "(state v = Not_a_member \<longrightarrow>
      update env v = Inl NotImplementedError \<and> run v (env # envs) = [Inl NotImplementedError]) \<and>
   state (Viewer_init a n s sys0) = Member WaitingForConnection \<and>
   Inl NotImplementedError \<notin> set (run (Viewer_init a n s sys0) envs1) \<and>
   (\<forall>w \<in> set (viewers (run (Viewer_init a n s sys0) envs1)). state w \<noteq> Not_a_member)"
proof -
  have init: "state (Viewer_init a n s sys0) = Member WaitingForConnection"
    by (simp add: Viewer_init_def)
  then have ne: "state (Viewer_init a n s sys0) \<noteq> Not_a_member" by simp
  show ?thesis
    using init run_NotImplementedError [OF ne] run_member_states [OF ne]
    by (simp add: update_Not_a_member)
qed

theorem unknown_state_is_fatal_and_unreachable_witness:
  "state ((Viewer_init (''127.0.0.1'', 9000) ''alice'' None \<lparr>payload = 0, System_t = 0\<rparr>)
            \<lparr>state := Not_a_member\<rparr>) = Not_a_member \<and>
   run ((Viewer_init (''127.0.0.1'', 9000) ''alice'' None \<lparr>payload = 0, System_t = 0\<rparr>)
            \<lparr>state := Not_a_member\<rparr>) [(Connects, []), (Connects, [])] = [Inl NotImplementedError] \<and>
   length (run (Viewer_init (''127.0.0.1'', 9000) ''alice'' None \<lparr>payload = 0, System_t = 0\<rparr>)
             [(Fails ECONNREFUSED, []), (Connects, []), (Connects, [LoginSuccessMessage 7])]) = 3 \<and>
   Inl NotImplementedError \<notin> set (run (Viewer_init (''127.0.0.1'', 9000) ''alice'' None \<lparr>payload = 0, System_t = 0\<rparr>)
             [(Fails ECONNREFUSED, []), (Connects, []), (Connects, [LoginSuccessMessage 7])])"
proof -
  have len: "length (run (Viewer_init (''127.0.0.1'', 9000) ''alice'' None \<lparr>payload = 0, System_t = 0\<rparr>)
             [(Fails ECONNREFUSED, []), (Connects, []), (Connects, [LoginSuccessMessage 7])]) = 3"
    by code_simp
  show ?thesis
    using len
      unknown_state_is_fatal_and_unreachable
        [of "(Viewer_init (''127.0.0.1'', 9000) ''alice'' None \<lparr>payload = 0, System_t = 0\<rparr>)\<lparr>state := Not_a_member\<rparr>"
            "(Connects, [])" "[(Connects, [])]" "(''127.0.0.1'', 9000)" "''alice''" None
            "\<lparr>payload = 0, System_t = 0\<rparr>"
            "[(Fails ECONNREFUSED, []), (Connects, []), (Connects, [LoginSuccessMessage 7])]"]
    by simp
qed

lemma play_update_score:
  "play (update_score scores wait) v = update_score_resumed scores v"
  by (simp add: update_score_def split: sum.splits)

lemma pauses_update_score: "pauses (update_score scores wait) = [wait]"
  by (simp add: pauses_def update_score_def)

lemma update_score_resumed_short:
  "length scores < 2 \<Longrightarrow> update_score_resumed scores v = Inl IndexError"
  by (cases scores; cases "tl scores") (auto simp: update_score_resumed_def index_def)

lemma update_score_resumed_two:
  "update_score_resumed ((n0, s0) # (n1, s1) # rest) v =
     Inr (v\<lparr>score_display :=
              upper n0 @ '': '' @ str_int s0 @ '' vs. '' @ upper n1 @ '': '' @ str_int s1\<rparr>)"
  by (simp add: update_score_resumed_def index_def)

text \<open>
  C10. The handler of the score-update event, run after its pause, raises \<open>IndexError\<close>
  for every scores mapping with fewer than two entries; for a mapping with two or more
  entries it sets the score display from the first two entries in insertion order, whatever
  the entries after them.
\<close>

theorem update_score_needs_two_entries:
  "pauses (accept (Ev_update_score scores wait)) = [wait] \<and>
   (length scores < 2 \<longrightarrow> play (accept (Ev_update_score scores wait)) v = Inl IndexError) \<and>
   (\<forall>n0 s0 n1 s1 rest. scores = (n0, s0) # (n1, s1) # rest \<longrightarrow>
      play (accept (Ev_update_score scores wait)) v =
        Inr (v\<lparr>score_display :=
                 upper n0 @ '': '' @ str_int s0 @ '' vs. '' @ upper n1 @ '': '' @ str_int s1\<rparr>))"
  by (simp add: play_update_score pauses_update_score update_score_resumed_short
      update_score_resumed_two)

theorem update_score_needs_two_entries_witness:
  "length [(''alice'', 2 :: int)] < 2 \<and>
   play (accept (Ev_update_score [(''alice'', 2)] 5))
     (Viewer_init (''127.0.0.1'', 9000) ''alice'' None \<lparr>payload = 0, System_t = 0\<rparr>) = Inl IndexError \<and>
   play (accept (Ev_update_score [] 5))
     (Viewer_init (''127.0.0.1'', 9000) ''alice'' None \<lparr>payload = 0, System_t = 0\<rparr>) = Inl IndexError \<and>
   play (accept (Ev_update_score [(''alice'', 2), (''bob'', 5), (''carol'', 7)] 5))
     (Viewer_init (''127.0.0.1'', 9000) ''alice'' None \<lparr>payload = 0, System_t = 0\<rparr>) =
     Inr ((Viewer_init (''127.0.0.1'', 9000) ''alice'' None \<lparr>payload = 0, System_t = 0\<rparr>)
            \<lparr>score_display := ''ALICE: 2 vs. BOB: 5''\<rparr>)"
proof -
  have up: "upper ''alice'' = ''ALICE''" "upper ''bob'' = ''BOB''" by code_simp+
  have st: "str_int 2 = ''2''" "str_int 5 = ''5''" by code_simp+
  show ?thesis
    using
      update_score_needs_two_entries [of "[(''alice'', 2)]" 5
        "Viewer_init (''127.0.0.1'', 9000) ''alice'' None \<lparr>payload = 0, System_t = 0\<rparr>"]
      update_score_needs_two_entries [of "[]" 5
        "Viewer_init (''127.0.0.1'', 9000) ''alice'' None \<lparr>payload = 0, System_t = 0\<rparr>"]
      update_score_needs_two_entries [of "[(''alice'', 2), (''bob'', 5), (''carol'', 7)]" 5
        "Viewer_init (''127.0.0.1'', 9000) ''alice'' None \<lparr>payload = 0, System_t = 0\<rparr>"]
    by (simp add: up st)
qed

lemma upper_bob: "upper ''bob'' = ''BOB''"
  by code_simp

lemma update_Viewing_broadcast:
  assumes "state v = Member Viewing" "buffer v = Some b"
    and "incoming b @ arrived = BroadcastMessage sys si scores # ms"
    and "game_over si \<longrightarrow> winner si \<noteq> None"
  shows "update (c, arrived) v =
     Inr (v\<lparr>buffer := Some (b\<lparr>incoming := ms\<rparr>),
            turn_indicator := ''Active player: '' @ upper (player_name (player si)),
            system := sys,
            messenger := messenger v @
              (if game_over si then [Ev_game_over (player_name (the (winner si))) (System_t sys)]
               else []) @
              [Ev_update_score scores (System_t sys), Ev_animate_shot],
            controller := controller v @
              [Attach_system sys, Buildup, Build_shot_animation, Cue_hide_nodes]\<rparr>, Again)"
  using assms(4)
  by (simp add: update_Viewing_msg [OF assms(1-3)] on_broadcast_wf)

lemma pauses_handlers:
  "pauses (on_game_over w wait) = [wait, 5 / 2]"
  "pauses (update_score scores wait) = [wait]"
  "pauses animate_shot = [3 / 2]"
  by (simp_all add: pauses_def on_game_over_def update_score_def animate_shot_def)

text \<open>
  C3, as the code has it. A tick in \<open>Viewing\<close> that receives the broadcast of scenario C
  (clock 5, active player and winner bob, game over, scores alice 2 and bob 5) sends three
  events, in this order: game-over with winner bob and wait 5, score-update with the pairs
  (alice, 2), (bob, 5) and wait 5, and shot-animation. The handlers of the first two pause
  for 5 before they act; the handler of the shot animation pauses for the constant 1.5,
  whatever the clock of the snapshot: it acts 1.5 after the event is sent, not 6.5.
\<close>

theorem scenario_C_triggers:
  assumes "state v = Member Viewing" and "buffer v = Some b"
    and "incoming b @ arrived =
           BroadcastMessage \<lparr>payload = p, System_t = 5\<rparr>
             \<lparr>player = Player ''bob'', game_over = True, winner = Some (Player ''bob'')\<rparr>
             [(''alice'', 2), (''bob'', 5)] # ms"
  shows "update (c, arrived) v =
     Inr (v\<lparr>buffer := Some (b\<lparr>incoming := ms\<rparr>),
            turn_indicator := ''Active player: BOB'',
            system := \<lparr>payload = p, System_t = 5\<rparr>,
            messenger := messenger v @
              [Ev_game_over ''bob'' 5, Ev_update_score [(''alice'', 2), (''bob'', 5)] 5,
               Ev_animate_shot],
            controller := controller v @
              [Attach_system \<lparr>payload = p, System_t = 5\<rparr>, Buildup, Build_shot_animation,
               Cue_hide_nodes]\<rparr>, Again) \<and>
     pauses (accept (Ev_game_over ''bob'' 5)) = [5, 5 / 2] \<and>
     pauses (accept (Ev_update_score [(''alice'', 2), (''bob'', 5)] 5)) = [5] \<and>
     pauses (accept Ev_animate_shot) = [3 / 2]"
  by (simp add: update_Viewing_broadcast [OF assms] pauses_handlers upper_bob)

theorem scenario_C_triggers_witness:
  "state ((Viewer_init (''127.0.0.1'', 9000) ''alice'' None \<lparr>payload = 0, System_t = 0\<rparr>)
        \<lparr>state := Member Viewing,
         buffer := Some \<lparr>pushed = [LoginMessage ''alice'' None VIEWER], incoming = []\<rparr>\<rparr>) = Member Viewing \<and>
   update (Connects, [BroadcastMessage \<lparr>payload = 1, System_t = 5\<rparr>
        \<lparr>player = Player ''bob'', game_over = True, winner = Some (Player ''bob'')\<rparr>
        [(''alice'', 2), (''bob'', 5)]])
     ((Viewer_init (''127.0.0.1'', 9000) ''alice'' None \<lparr>payload = 0, System_t = 0\<rparr>)
        \<lparr>state := Member Viewing,
         buffer := Some \<lparr>pushed = [LoginMessage ''alice'' None VIEWER], incoming = []\<rparr>\<rparr>) =
   Inr (((Viewer_init (''127.0.0.1'', 9000) ''alice'' None \<lparr>payload = 0, System_t = 0\<rparr>)
        \<lparr>state := Member Viewing,
         buffer := Some \<lparr>pushed = [LoginMessage ''alice'' None VIEWER], incoming = []\<rparr>\<rparr>)
        \<lparr>buffer := Some \<lparr>pushed = [LoginMessage ''alice'' None VIEWER], incoming = []\<rparr>,
         turn_indicator := ''Active player: BOB'',
         system := \<lparr>payload = 1, System_t = 5\<rparr>,
         messenger :=
           [Ev_game_over ''bob'' 5, Ev_update_score [(''alice'', 2), (''bob'', 5)] 5,
            Ev_animate_shot],
         controller :=
           [Attach_system \<lparr>payload = 0, System_t = 0\<rparr>, Buildup, Cue_hide_nodes,
            Attach_system \<lparr>payload = 1, System_t = 5\<rparr>, Buildup, Build_shot_animation,
            Cue_hide_nodes]\<rparr>, Again)"
  using scenario_C_triggers
    [of "((Viewer_init (''127.0.0.1'', 9000) ''alice'' None \<lparr>payload = 0, System_t = 0\<rparr>)
        \<lparr>state := Member Viewing,
         buffer := Some \<lparr>pushed = [LoginMessage ''alice'' None VIEWER], incoming = []\<rparr>\<rparr>)"
        "\<lparr>pushed = [LoginMessage ''alice'' None VIEWER], incoming = []\<rparr>"
        "[BroadcastMessage \<lparr>payload = 1, System_t = 5\<rparr>
        \<lparr>player = Player ''bob'', game_over = True, winner = Some (Player ''bob'')\<rparr>
        [(''alice'', 2), (''bob'', 5)]]" 1 "[]" Connects]
  by (simp add: Viewer_init_def)

text \<open>
  C3 as stated puts the shot animation at offset 6.5, that is 1.5 after the score update.
  In the run of scenario C from the constructor, the score update waits 5 and the shot
  animation 1.5.
\<close>

theorem scenario_C_animation_offset_counterexample:
  "messenger (last (viewers (run
      (Viewer_init (''127.0.0.1'', 9000) ''alice'' None \<lparr>payload = 0, System_t = 0\<rparr>)
      [(Connects, []), (Connects, [LoginSuccessMessage 7]),
       (Connects, [BroadcastMessage \<lparr>payload = 1, System_t = 5\<rparr>
        \<lparr>player = Player ''bob'', game_over = True, winner = Some (Player ''bob'')\<rparr>
        [(''alice'', 2), (''bob'', 5)]])]))) =
     [Ev_game_over ''bob'' 5, Ev_update_score [(''alice'', 2), (''bob'', 5)] 5, Ev_animate_shot] \<and>
   pauses (accept (Ev_update_score [(''alice'', 2), (''bob'', 5)] 5)) = [5] \<and>
   pauses (accept Ev_animate_shot) = [3 / 2] \<and>
   pauses (accept Ev_animate_shot) \<noteq> [13 / 2]"
  by code_simp

text \<open>
  C7. When the message popped in \<open>ConnectionPending\<close> is none of \<open>ConnectionClosed\<close>,
  \<open>LoginSuccess\<close>, \<open>LoginFailed\<close>, or the message popped in \<open>Viewing\<close> is none of
  \<open>ConnectionClosed\<close>, \<open>Broadcast\<close>, the tick logs the warning \<open>Unexpected message!\<close>,
  changes nothing else of the viewer apart from the queue the message was taken from,
  and returns \<open>task.again\<close>, so that the run goes on with the next tick.
\<close>

theorem unexpected_message_is_logged_and_ignored:
  assumes "buffer v = Some b" and "incoming b @ arrived = m # ms"
    and "state v = Member ConnectionPending \<and> m \<noteq> ConnectionClosedMessage \<and>
           (\<forall>s. m \<noteq> LoginSuccessMessage s) \<and> (\<forall>reason. m \<noteq> LoginFailedMessage reason)
         \<or> state v = Member Viewing \<and> m \<noteq> ConnectionClosedMessage \<and>
           (\<forall>sys si scores. m \<noteq> BroadcastMessage sys si scores)"
  shows "update (c, arrived) v =
           Inr (v\<lparr>buffer := Some (b\<lparr>incoming := ms\<rparr>),
                  logged := logged v @ [(WARNING, Unexpected_message)]\<rparr>, Again) \<and>
         run v ((c, arrived) # envs) =
           Inr (v\<lparr>buffer := Some (b\<lparr>incoming := ms\<rparr>),
                  logged := logged v @ [(WARNING, Unexpected_message)]\<rparr>, Again) #
           run (v\<lparr>buffer := Some (b\<lparr>incoming := ms\<rparr>),
                  logged := logged v @ [(WARNING, Unexpected_message)]\<rparr>) envs"
proof -
  have "update (c, arrived) v =
           Inr (v\<lparr>buffer := Some (b\<lparr>incoming := ms\<rparr>),
                  logged := logged v @ [(WARNING, Unexpected_message)]\<rparr>, Again)"
    using assms(3)
  proof
    assume a: "state v = Member ConnectionPending \<and> m \<noteq> ConnectionClosedMessage \<and>
           (\<forall>s. m \<noteq> LoginSuccessMessage s) \<and> (\<forall>reason. m \<noteq> LoginFailedMessage reason)"
    then show ?thesis
      using update_Pending_msg [OF _ assms(1,2), of c] by (cases m) auto
  next
    assume a: "state v = Member Viewing \<and> m \<noteq> ConnectionClosedMessage \<and>
           (\<forall>sys si scores. m \<noteq> BroadcastMessage sys si scores)"
    then show ?thesis
      using update_Viewing_msg [OF _ assms(1,2), of c] by (cases m) auto
  qed
  then show ?thesis by simp
qed

theorem unexpected_message_is_logged_and_ignored_witness:
  "state ((Viewer_init (''127.0.0.1'', 9000) ''alice'' None \<lparr>payload = 0, System_t = 0\<rparr>)
        \<lparr>state := Member ConnectionPending,
         buffer := Some \<lparr>pushed = [LoginMessage ''alice'' None VIEWER], incoming = []\<rparr>\<rparr>) = Member ConnectionPending \<and>
   update (Connects, [LoginMessage ''mallory'' None VIEWER])
     ((Viewer_init (''127.0.0.1'', 9000) ''alice'' None \<lparr>payload = 0, System_t = 0\<rparr>)
        \<lparr>state := Member ConnectionPending,
         buffer := Some \<lparr>pushed = [LoginMessage ''alice'' None VIEWER], incoming = []\<rparr>\<rparr>) =
   Inr (((Viewer_init (''127.0.0.1'', 9000) ''alice'' None \<lparr>payload = 0, System_t = 0\<rparr>)
        \<lparr>state := Member ConnectionPending,
         buffer := Some \<lparr>pushed = [LoginMessage ''alice'' None VIEWER], incoming = []\<rparr>\<rparr>)
        \<lparr>buffer := Some \<lparr>pushed = [LoginMessage ''alice'' None VIEWER], incoming = []\<rparr>,
         logged := [(WARNING, Unexpected_message)]\<rparr>, Again) \<and>
   state ((Viewer_init (''127.0.0.1'', 9000) ''alice'' None \<lparr>payload = 0, System_t = 0\<rparr>)
        \<lparr>state := Member Viewing,
         buffer := Some \<lparr>pushed = [LoginMessage ''alice'' None VIEWER], incoming = []\<rparr>\<rparr>) = Member Viewing \<and>
   update (Connects, [LoginFailedMessage ''late''])
     ((Viewer_init (''127.0.0.1'', 9000) ''alice'' None \<lparr>payload = 0, System_t = 0\<rparr>)
        \<lparr>state := Member Viewing,
         buffer := Some \<lparr>pushed = [LoginMessage ''alice'' None VIEWER], incoming = []\<rparr>\<rparr>) =
   Inr (((Viewer_init (''127.0.0.1'', 9000) ''alice'' None \<lparr>payload = 0, System_t = 0\<rparr>)
        \<lparr>state := Member Viewing,
         buffer := Some \<lparr>pushed = [LoginMessage ''alice'' None VIEWER], incoming = []\<rparr>\<rparr>)
        \<lparr>buffer := Some \<lparr>pushed = [LoginMessage ''alice'' None VIEWER], incoming = []\<rparr>,
         logged := [(WARNING, Unexpected_message)]\<rparr>, Again)"
  using
    unexpected_message_is_logged_and_ignored
      [of "((Viewer_init (''127.0.0.1'', 9000) ''alice'' None \<lparr>payload = 0, System_t = 0\<rparr>)
        \<lparr>state := Member ConnectionPending,
         buffer := Some \<lparr>pushed = [LoginMessage ''alice'' None VIEWER], incoming = []\<rparr>\<rparr>)" "\<lparr>pushed = [LoginMessage ''alice'' None VIEWER], incoming = []\<rparr>" "[LoginMessage ''mallory'' None VIEWER]"
          "LoginMessage ''mallory'' None VIEWER" "[]" Connects "[]"]
    unexpected_message_is_logged_and_ignored
      [of "((Viewer_init (''127.0.0.1'', 9000) ''alice'' None \<lparr>payload = 0, System_t = 0\<rparr>)
        \<lparr>state := Member Viewing,
         buffer := Some \<lparr>pushed = [LoginMessage ''alice'' None VIEWER], incoming = []\<rparr>\<rparr>)" "\<lparr>pushed = [LoginMessage ''alice'' None VIEWER], incoming = []\<rparr>" "[LoginFailedMessage ''late'']"
          "LoginFailedMessage ''late''" "[]" Connects "[]"]
  by (simp add: Viewer_init_def)

text \<open>
  C6. When the message popped is \<open>LoginFailed\<close> in \<open>ConnectionPending\<close>, or
  \<open>ConnectionClosed\<close> in \<open>ConnectionPending\<close> or \<open>Viewing\<close>, the tick returns normally: it logs
  one line at level INFO and returns \<open>task.done\<close>, which is the terminal state the
  specification calls Closed. The run ends with this tick whatever the later environments
  are, so no tick and no \<open>connect\<close> follows.
\<close>

theorem login_failed_or_closed_ends_the_session:
  assumes "buffer v = Some b" and "incoming b @ arrived = m # ms"
    and "state v = Member ConnectionPending \<and>
           (m = ConnectionClosedMessage \<or> (\<exists>reason. m = LoginFailedMessage reason))
         \<or> state v = Member Viewing \<and> m = ConnectionClosedMessage"
  shows "update (c, arrived) v =
           Inr (v\<lparr>buffer := Some (b\<lparr>incoming := ms\<rparr>),
                  logged := logged v @
                    [(INFO, case m of LoginFailedMessage reason \<Rightarrow> Failed_to_connect reason
                                 | _ \<Rightarrow> Server_disconnected)]\<rparr>, Done) \<and>
         run v ((c, arrived) # envs) = [update (c, arrived) v] \<and>
         (\<forall>w \<in> set (viewers (run v ((c, arrived) # envs))).
            connect_calls (sock w) = connect_calls (sock v) \<and> state w = state v)"
proof -
  have "update (c, arrived) v =
           Inr (v\<lparr>buffer := Some (b\<lparr>incoming := ms\<rparr>),
                  logged := logged v @
                    [(INFO, case m of LoginFailedMessage reason \<Rightarrow> Failed_to_connect reason
                                 | _ \<Rightarrow> Server_disconnected)]\<rparr>, Done)"
    using assms(3)
  proof
    assume "state v = Member ConnectionPending \<and>
           (m = ConnectionClosedMessage \<or> (\<exists>reason. m = LoginFailedMessage reason))"
    then show ?thesis
      using update_Pending_msg [OF _ assms(1,2), of c] by auto
  next
    assume "state v = Member Viewing \<and> m = ConnectionClosedMessage"
    then show ?thesis
      using update_Viewing_msg [OF _ assms(1,2), of c] by auto
  qed
  then show ?thesis by simp
qed

theorem login_failed_or_closed_ends_the_session_witness:
  "state ((Viewer_init (''127.0.0.1'', 9000) ''alice'' None \<lparr>payload = 0, System_t = 0\<rparr>)
        \<lparr>state := Member ConnectionPending,
         buffer := Some \<lparr>pushed = [LoginMessage ''alice'' None VIEWER], incoming = []\<rparr>\<rparr>) = Member ConnectionPending \<and>
   run ((Viewer_init (''127.0.0.1'', 9000) ''alice'' None \<lparr>payload = 0, System_t = 0\<rparr>)
        \<lparr>state := Member ConnectionPending,
         buffer := Some \<lparr>pushed = [LoginMessage ''alice'' None VIEWER], incoming = []\<rparr>\<rparr>)
     [(Connects, [LoginFailedMessage ''bad secret'']), (Connects, [LoginSuccessMessage 7])] =
   [Inr (((Viewer_init (''127.0.0.1'', 9000) ''alice'' None \<lparr>payload = 0, System_t = 0\<rparr>)
        \<lparr>state := Member ConnectionPending,
         buffer := Some \<lparr>pushed = [LoginMessage ''alice'' None VIEWER], incoming = []\<rparr>\<rparr>)
        \<lparr>buffer := Some \<lparr>pushed = [LoginMessage ''alice'' None VIEWER], incoming = []\<rparr>,
         logged := [(INFO, Failed_to_connect ''bad secret'')]\<rparr>, Done)] \<and>
   state ((Viewer_init (''127.0.0.1'', 9000) ''alice'' None \<lparr>payload = 0, System_t = 0\<rparr>)
        \<lparr>state := Member Viewing,
         buffer := Some \<lparr>pushed = [LoginMessage ''alice'' None VIEWER], incoming = []\<rparr>\<rparr>) = Member Viewing \<and>
   run ((Viewer_init (''127.0.0.1'', 9000) ''alice'' None \<lparr>payload = 0, System_t = 0\<rparr>)
        \<lparr>state := Member Viewing,
         buffer := Some \<lparr>pushed = [LoginMessage ''alice'' None VIEWER], incoming = []\<rparr>\<rparr>)
     [(Connects, [ConnectionClosedMessage]), (Connects, [])] =
   [Inr (((Viewer_init (''127.0.0.1'', 9000) ''alice'' None \<lparr>payload = 0, System_t = 0\<rparr>)
        \<lparr>state := Member Viewing,
         buffer := Some \<lparr>pushed = [LoginMessage ''alice'' None VIEWER], incoming = []\<rparr>\<rparr>)
        \<lparr>buffer := Some \<lparr>pushed = [LoginMessage ''alice'' None VIEWER], incoming = []\<rparr>,
         logged := [(INFO, Server_disconnected)]\<rparr>, Done)]"
  using
    login_failed_or_closed_ends_the_session
      [of "((Viewer_init (''127.0.0.1'', 9000) ''alice'' None \<lparr>payload = 0, System_t = 0\<rparr>)
        \<lparr>state := Member ConnectionPending,
         buffer := Some \<lparr>pushed = [LoginMessage ''alice'' None VIEWER], incoming = []\<rparr>\<rparr>)" "\<lparr>pushed = [LoginMessage ''alice'' None VIEWER], incoming = []\<rparr>" "[LoginFailedMessage ''bad secret'']"
          "LoginFailedMessage ''bad secret''" "[]" Connects "[(Connects, [LoginSuccessMessage 7])]"]
    login_failed_or_closed_ends_the_session
      [of "((Viewer_init (''127.0.0.1'', 9000) ''alice'' None \<lparr>payload = 0, System_t = 0\<rparr>)
        \<lparr>state := Member Viewing,
         buffer := Some \<lparr>pushed = [LoginMessage ''alice'' None VIEWER], incoming = []\<rparr>\<rparr>)" "\<lparr>pushed = [LoginMessage ''alice'' None VIEWER], incoming = []\<rparr>" "[ConnectionClosedMessage]"
          "ConnectionClosedMessage" "[]" Connects "[(Connects, [])]"]
  by (simp add: Viewer_init_def)

lemma run_refused:
  assumes "state v = Member WaitingForConnection"
    and "\<forall>env \<in> set envs. fst env = Fails ECONNREFUSED"
  shows "run v envs =
     map (\<lambda>i. Inr (v\<lparr>sock := (sock v)\<lparr>connect_calls :=
                        connect_calls (sock v) @ replicate (Suc i) (address v)\<rparr>\<rparr>, Again))
       [0..<length envs]"
  using assms
proof (induction envs arbitrary: v)
  case Nil
  then show ?case by simp
next
  case (Cons env envs)
  obtain c arrived where env: "env = (c, arrived)" by (cases env)
  with Cons.prems have c: "c = Fails ECONNREFUSED" by simp
  let ?v1 = "v\<lparr>sock := (sock v)\<lparr>connect_calls := connect_calls (sock v) @ [address v]\<rparr>\<rparr>"
  have step: "update env v = Inr (?v1, Again)"
    using update_Waiting_refused [OF Cons.prems(1)] env c by simp
  have s1: "state ?v1 = Member WaitingForConnection" using Cons.prems(1) by simp
  have rest: "\<forall>env \<in> set envs. fst env = Fails ECONNREFUSED" using Cons.prems(2) by simp
  have up: "[0..<length (env # envs)] = 0 # map Suc [0..<length envs]"
    by (simp add: upt_conv_Cons map_Suc_upt del: upt_Suc)
  show ?case
    unfolding up using step Cons.IH [OF s1 rest]
    by (simp add: replicate_append_same)
qed

lemma run_refused_append:
  assumes "state v = Member WaitingForConnection"
    and "\<forall>env \<in> set envs. fst env = Fails ECONNREFUSED"
  shows "run v (envs @ rest) =
     run v envs @
     run (v\<lparr>sock := (sock v)\<lparr>connect_calls :=
               connect_calls (sock v) @ replicate (length envs) (address v)\<rparr>\<rparr>) rest"
  using assms
proof (induction envs arbitrary: v)
  case Nil
  then show ?case by simp
next
  case (Cons env envs)
  obtain c arrived where env: "env = (c, arrived)" by (cases env)
  with Cons.prems have c: "c = Fails ECONNREFUSED" by simp
  let ?v1 = "v\<lparr>sock := (sock v)\<lparr>connect_calls := connect_calls (sock v) @ [address v]\<rparr>\<rparr>"
  have step: "update env v = Inr (?v1, Again)"
    using update_Waiting_refused [OF Cons.prems(1)] env c by simp
  have s1: "state ?v1 = Member WaitingForConnection" using Cons.prems(1) by simp
  have rest: "\<forall>env \<in> set envs. fst env = Fails ECONNREFUSED" using Cons.prems(2) by simp
  show ?case
    using step Cons.IH [OF s1 rest] by (simp add: replicate_append_same)
qed

text \<open>
  C2, as the code has it. The constructor leaves the socket in blocking mode and the
  viewer in \<open>WaitingForConnection\<close>. A tick in that state calls \<open>connect\<close> on the configured
  address. When the connect is refused (\<open>ConnectionRefusedError\<close>) the tick changes nothing
  but the socket's record of the attempt: the state stays, nothing is logged, no buffer
  exists and no message is sent, and the task is run again; this repeats for any number of
  refusals. When the connect succeeds the socket is switched to non-blocking mode, a new
  buffer holds exactly the \<open>Login\<close> with the configured name, the configured secret and the
  kind \<open>VIEWER\<close>, and the state becomes \<open>ConnectionPending\<close>.
\<close>

theorem waiting_tick_retries_or_logs_in:
  assumes "state v = Member WaitingForConnection"
  shows "update (Fails ECONNREFUSED, arrived) v =
           Inr (v\<lparr>sock := (sock v)\<lparr>connect_calls := connect_calls (sock v) @ [address v]\<rparr>\<rparr>,
                Again) \<and>
         update (Connects, arrived) v =
           Inr (v\<lparr>sock := (sock v)\<lparr>connected := True,
                                    connect_calls := connect_calls (sock v) @ [address v],
                                    blocking := False\<rparr>,
                  buffer := Some \<lparr>pushed = [LoginMessage (name v) (secret v) VIEWER],
                                  incoming = []\<rparr>,
                  state := Member ConnectionPending\<rparr>, Again) \<and>
        ((\<forall>env \<in> set envs. fst env = Fails ECONNREFUSED) \<longrightarrow>
         run v (envs @ [(Connects, arrived)]) =
           map (\<lambda>i. Inr (v\<lparr>sock := (sock v)\<lparr>connect_calls :=
                              connect_calls (sock v) @ replicate (Suc i) (address v)\<rparr>\<rparr>, Again))
             [0..<length envs] @
           [Inr (v\<lparr>sock := (sock v)\<lparr>connected := True,
                                     connect_calls := connect_calls (sock v) @
                                       replicate (Suc (length envs)) (address v),
                                     blocking := False\<rparr>,
                   buffer := Some \<lparr>pushed = [LoginMessage (name v) (secret v) VIEWER],
                                   incoming = []\<rparr>,
                   state := Member ConnectionPending\<rparr>, Again)]) \<and>
         state (Viewer_init a n s sys0) = Member WaitingForConnection \<and>
         blocking (sock (Viewer_init a n s sys0)) \<and>
         buffer (Viewer_init a n s sys0) = None"
proof -
  have refused: "update (Fails ECONNREFUSED, arrived) v =
           Inr (v\<lparr>sock := (sock v)\<lparr>connect_calls := connect_calls (sock v) @ [address v]\<rparr>\<rparr>,
                Again)"
    by (rule update_Waiting_refused [OF assms])
  have connects: "update (Connects, arrived) v =
           Inr (v\<lparr>sock := (sock v)\<lparr>connected := True,
                                    connect_calls := connect_calls (sock v) @ [address v],
                                    blocking := False\<rparr>,
                  buffer := Some \<lparr>pushed = [LoginMessage (name v) (secret v) VIEWER],
                                  incoming = []\<rparr>,
                  state := Member ConnectionPending\<rparr>, Again)"
    by (rule update_Waiting_connects [OF assms])
  have init: "state (Viewer_init a n s sys0) = Member WaitingForConnection \<and>
         blocking (sock (Viewer_init a n s sys0)) \<and>
         buffer (Viewer_init a n s sys0) = None"
    by (simp add: Viewer_init_def socket_new_def)
  have retries: "(\<forall>env \<in> set envs. fst env = Fails ECONNREFUSED) \<longrightarrow>
         run v (envs @ [(Connects, arrived)]) =
           map (\<lambda>i. Inr (v\<lparr>sock := (sock v)\<lparr>connect_calls :=
                              connect_calls (sock v) @ replicate (Suc i) (address v)\<rparr>\<rparr>, Again))
             [0..<length envs] @
           [Inr (v\<lparr>sock := (sock v)\<lparr>connected := True,
                                     connect_calls := connect_calls (sock v) @
                                       replicate (Suc (length envs)) (address v),
                                     blocking := False\<rparr>,
                   buffer := Some \<lparr>pushed = [LoginMessage (name v) (secret v) VIEWER],
                                   incoming = []\<rparr>,
                   state := Member ConnectionPending\<rparr>, Again)]"
  proof
    assume all: "\<forall>env \<in> set envs. fst env = Fails ECONNREFUSED"
    let ?vn = "v\<lparr>sock := (sock v)\<lparr>connect_calls :=
                 connect_calls (sock v) @ replicate (length envs) (address v)\<rparr>\<rparr>"
    have sn: "state ?vn = Member WaitingForConnection" using assms by simp
    show "run v (envs @ [(Connects, arrived)]) =
           map (\<lambda>i. Inr (v\<lparr>sock := (sock v)\<lparr>connect_calls :=
                              connect_calls (sock v) @ replicate (Suc i) (address v)\<rparr>\<rparr>, Again))
             [0..<length envs] @
           [Inr (v\<lparr>sock := (sock v)\<lparr>connected := True,
                                     connect_calls := connect_calls (sock v) @
                                       replicate (Suc (length envs)) (address v),
                                     blocking := False\<rparr>,
                   buffer := Some \<lparr>pushed = [LoginMessage (name v) (secret v) VIEWER],
                                   incoming = []\<rparr>,
                   state := Member ConnectionPending\<rparr>, Again)]"
      using run_refused_append [OF assms all, of "[(Connects, arrived)]"]
        run_refused [OF assms all] update_Waiting_connects [OF sn, of arrived]
      by (simp add: replicate_append_same)
  qed
  from refused connects retries init show ?thesis by blast
qed

theorem waiting_tick_retries_or_logs_in_witness:
  "state (Viewer_init (''127.0.0.1'', 9000) ''alice'' None \<lparr>payload = 0, System_t = 0\<rparr>) = Member WaitingForConnection \<and>
   run (Viewer_init (''127.0.0.1'', 9000) ''alice'' None \<lparr>payload = 0, System_t = 0\<rparr>)
     [(Fails ECONNREFUSED, []), (Fails ECONNREFUSED, []), (Fails ECONNREFUSED, []), (Connects, [])] =
   [Inr ((Viewer_init (''127.0.0.1'', 9000) ''alice'' None \<lparr>payload = 0, System_t = 0\<rparr>)
         \<lparr>sock := \<lparr>blocking = True, connected = False, closed = False,
                   connect_calls = [(''127.0.0.1'', 9000)]\<rparr>\<rparr>, Again),
    Inr ((Viewer_init (''127.0.0.1'', 9000) ''alice'' None \<lparr>payload = 0, System_t = 0\<rparr>)
         \<lparr>sock := \<lparr>blocking = True, connected = False, closed = False,
                   connect_calls = [(''127.0.0.1'', 9000), (''127.0.0.1'', 9000)]\<rparr>\<rparr>, Again),
    Inr ((Viewer_init (''127.0.0.1'', 9000) ''alice'' None \<lparr>payload = 0, System_t = 0\<rparr>)
         \<lparr>sock := \<lparr>blocking = True, connected = False, closed = False,
                   connect_calls = [(''127.0.0.1'', 9000), (''127.0.0.1'', 9000),
                                    (''127.0.0.1'', 9000)]\<rparr>\<rparr>, Again),
    Inr ((Viewer_init (''127.0.0.1'', 9000) ''alice'' None \<lparr>payload = 0, System_t = 0\<rparr>)
         \<lparr>sock := \<lparr>blocking = False, connected = True, closed = False,
                   connect_calls = [(''127.0.0.1'', 9000), (''127.0.0.1'', 9000),
                                    (''127.0.0.1'', 9000), (''127.0.0.1'', 9000)]\<rparr>,
           buffer := Some \<lparr>pushed = [LoginMessage ''alice'' None VIEWER], incoming = []\<rparr>,
           state := Member ConnectionPending\<rparr>, Again)]"
proof -
  have w: "state (Viewer_init (''127.0.0.1'', 9000) ''alice'' None \<lparr>payload = 0, System_t = 0\<rparr>) = Member WaitingForConnection"
    by (simp add: Viewer_init_def)
  have up: "[0..<3] = [0, Suc 0, Suc (Suc 0)]"
    by (simp add: upt_rec)
  have refusals: "\<forall>env \<in> set [(Fails ECONNREFUSED, []), (Fails ECONNREFUSED, []),
      (Fails ECONNREFUSED, [] :: Message list)]. fst env = Fails ECONNREFUSED"
    by simp
  from waiting_tick_retries_or_logs_in [OF w, of "[]"
        "[(Fails ECONNREFUSED, []), (Fails ECONNREFUSED, []), (Fails ECONNREFUSED, [])]"]
  have "(\<forall>env \<in> set [(Fails ECONNREFUSED, []), (Fails ECONNREFUSED, []),
      (Fails ECONNREFUSED, [] :: Message list)]. fst env = Fails ECONNREFUSED) \<longrightarrow>
    run (Viewer_init (''127.0.0.1'', 9000) ''alice'' None \<lparr>payload = 0, System_t = 0\<rparr>)
     ([(Fails ECONNREFUSED, []), (Fails ECONNREFUSED, []), (Fails ECONNREFUSED, [])] @
      [(Connects, [])]) =
    map (\<lambda>i. Inr ((Viewer_init (''127.0.0.1'', 9000) ''alice'' None \<lparr>payload = 0, System_t = 0\<rparr>)\<lparr>sock := (sock (Viewer_init (''127.0.0.1'', 9000) ''alice'' None \<lparr>payload = 0, System_t = 0\<rparr>))\<lparr>connect_calls :=
           connect_calls (sock (Viewer_init (''127.0.0.1'', 9000) ''alice'' None \<lparr>payload = 0, System_t = 0\<rparr>)) @ replicate (Suc i) (address (Viewer_init (''127.0.0.1'', 9000) ''alice'' None \<lparr>payload = 0, System_t = 0\<rparr>))\<rparr>\<rparr>, Again))
      [0..<length [(Fails ECONNREFUSED, []), (Fails ECONNREFUSED, []),
         (Fails ECONNREFUSED, [] :: Message list)]] @
    [Inr ((Viewer_init (''127.0.0.1'', 9000) ''alice'' None \<lparr>payload = 0, System_t = 0\<rparr>)\<lparr>sock := (sock (Viewer_init (''127.0.0.1'', 9000) ''alice'' None \<lparr>payload = 0, System_t = 0\<rparr>))\<lparr>connected := True,
            connect_calls := connect_calls (sock (Viewer_init (''127.0.0.1'', 9000) ''alice'' None \<lparr>payload = 0, System_t = 0\<rparr>)) @
              replicate (Suc (length [(Fails ECONNREFUSED, []), (Fails ECONNREFUSED, []),
                (Fails ECONNREFUSED, [] :: Message list)])) (address (Viewer_init (''127.0.0.1'', 9000) ''alice'' None \<lparr>payload = 0, System_t = 0\<rparr>)),
            blocking := False\<rparr>,
          buffer := Some \<lparr>pushed = [LoginMessage (name (Viewer_init (''127.0.0.1'', 9000) ''alice'' None \<lparr>payload = 0, System_t = 0\<rparr>)) (secret (Viewer_init (''127.0.0.1'', 9000) ''alice'' None \<lparr>payload = 0, System_t = 0\<rparr>)) VIEWER],
                          incoming = []\<rparr>,
          state := Member ConnectionPending\<rparr>, Again)]"
    by blast
  with refusals show ?thesis
    using w by (simp add: up Viewer_init_def socket_new_def)
qed

text \<open>
  C2 as stated has the connect made in non-blocking mode and a connect that is not ready
  yet retried like a refused one. The constructed viewer connects on a blocking socket,
  and a connect that answers \<open>EINPROGRESS\<close> (\<open>BlockingIOError\<close>, not ready yet) or
  \<open>ETIMEDOUT\<close> is not caught: the exception leaves the tick.
\<close>

theorem blocking_connect_counterexample:
  "state (Viewer_init (''127.0.0.1'', 9000) ''alice'' None \<lparr>payload = 0, System_t = 0\<rparr>) = Member WaitingForConnection \<and>
   blocking (sock (Viewer_init (''127.0.0.1'', 9000) ''alice'' None \<lparr>payload = 0, System_t = 0\<rparr>)) \<and>
   update (Fails EINPROGRESS, []) (Viewer_init (''127.0.0.1'', 9000) ''alice'' None \<lparr>payload = 0, System_t = 0\<rparr>) = Inl (OSError EINPROGRESS) \<and>
   run (Viewer_init (''127.0.0.1'', 9000) ''alice'' None \<lparr>payload = 0, System_t = 0\<rparr>) [(Fails ETIMEDOUT, []), (Connects, [])] = [Inl (OSError ETIMEDOUT)]"
  by code_simp

lemma update_keeps_name_secret:
  assumes "update env v = Inr (v1, r)"
  shows "name v1 = name v \<and> secret v1 = secret v"
  using assms
  by (auto simp: update_def sock_connect_def log_to_def
      split: if_splits connect_result.splits option.splits prod.splits Message.splits sum.splits
      dest: on_broadcast_state)

lemma update_keeps_pushed:
  assumes "update env v = Inr (v1, r)" and "state v \<noteq> Member WaitingForConnection"
    and "buffer v = Some b"
  shows "\<exists>b1. buffer v1 = Some b1 \<and> pushed b1 = pushed b"
  using assms
  by (auto simp: update_def log_to_def
      split: if_splits option.splits prod.splits Message.splits sum.splits
      dest!: on_broadcast_state pop_keeps_pushed)

lemma update_Waiting_buffer:
  assumes "update env v = Inr (v1, r)" and "state v = Member WaitingForConnection"
  shows "state v1 = Member WaitingForConnection \<and> buffer v1 = buffer v \<or>
         state v1 = Member ConnectionPending \<and>
         buffer v1 = Some \<lparr>pushed = [LoginMessage (name v) (secret v) VIEWER], incoming = []\<rparr>"
  using assms
  by (auto simp: update_def sock_connect_def push_msg_def MessageBuffer_new_def
      split: if_splits connect_result.splits)

lemma run_logged_in_once:
  "\<forall>w \<in> set (viewers (run (Viewer_init a n s sys0) envs)).
     name w = n \<and> secret w = s \<and>
     (state w = Member WaitingForConnection \<and> buffer w = None \<or>
      (state w = Member ConnectionPending \<or> state w = Member Viewing) \<and>
      (\<exists>b. buffer w = Some b \<and> pushed b = [LoginMessage n s VIEWER]))"
proof (rule run_invariant)
  show "name (Viewer_init a n s sys0) = n \<and> secret (Viewer_init a n s sys0) = s \<and>
     (state (Viewer_init a n s sys0) = Member WaitingForConnection \<and>
        buffer (Viewer_init a n s sys0) = None \<or>
      (state (Viewer_init a n s sys0) = Member ConnectionPending \<or>
         state (Viewer_init a n s sys0) = Member Viewing) \<and>
      (\<exists>b. buffer (Viewer_init a n s sys0) = Some b \<and> pushed b = [LoginMessage n s VIEWER]))"
    by (simp add: Viewer_init_def)
next
  fix env v v1 r
  assume inv: "name v = n \<and> secret v = s \<and>
     (state v = Member WaitingForConnection \<and> buffer v = None \<or>
      (state v = Member ConnectionPending \<or> state v = Member Viewing) \<and>
      (\<exists>b. buffer v = Some b \<and> pushed b = [LoginMessage n s VIEWER]))"
    and step: "update env v = Inr (v1, r)"
  have ns: "name v1 = n \<and> secret v1 = s"
    using update_keeps_name_secret [OF step] inv by simp
  from inv have "state v = Member WaitingForConnection \<and> buffer v = None \<or>
      (state v = Member ConnectionPending \<or> state v = Member Viewing) \<and>
      (\<exists>b. buffer v = Some b \<and> pushed b = [LoginMessage n s VIEWER])" by simp
  then have "state v1 = Member WaitingForConnection \<and> buffer v1 = None \<or>
      (state v1 = Member ConnectionPending \<or> state v1 = Member Viewing) \<and>
      (\<exists>b. buffer v1 = Some b \<and> pushed b = [LoginMessage n s VIEWER])"
  proof
    assume w: "state v = Member WaitingForConnection \<and> buffer v = None"
    then show ?thesis using update_Waiting_buffer [OF step] inv by auto
  next
    assume pv: "(state v = Member ConnectionPending \<or> state v = Member Viewing) \<and>
      (\<exists>b. buffer v = Some b \<and> pushed b = [LoginMessage n s VIEWER])"
    then obtain b where b: "buffer v = Some b" "pushed b = [LoginMessage n s VIEWER]" by blast
    from pv have nw: "state v \<noteq> Member WaitingForConnection" by auto
    from update_keeps_pushed [OF step nw b(1)] b(2)
    have "\<exists>b. buffer v1 = Some b \<and> pushed b = [LoginMessage n s VIEWER]" by auto
    moreover have "state v1 = Member ConnectionPending \<or> state v1 = Member Viewing"
      using update_state_step [OF step] pv by auto
    ultimately show ?thesis by blast
  qed
  with ns show "name v1 = n \<and> secret v1 = s \<and>
     (state v1 = Member WaitingForConnection \<and> buffer v1 = None \<or>
      (state v1 = Member ConnectionPending \<or> state v1 = Member Viewing) \<and>
      (\<exists>b. buffer v1 = Some b \<and> pushed b = [LoginMessage n s VIEWER]))" by blast
qed

text \<open>
  C5. In every run from the constructed viewer, whatever the environments of the ticks:
  a viewer that is still waiting for the connection has no buffer, and every later viewer
  has a buffer to which exactly one message was ever pushed, the \<open>Login\<close> with the
  configured name and secret and the kind \<open>VIEWER\<close>; so no second \<open>Login\<close> and no message
  before it is enqueued. The states of the run are first \<open>WaitingForConnection\<close>, then
  \<open>ConnectionPending\<close>, then \<open>Viewing\<close>: none is followed by an earlier one.
\<close>

theorem one_login_and_no_return_to_waiting:
  "(\<forall>w \<in> set (viewers (run (Viewer_init a n s sys0) envs)).
      state w = Member WaitingForConnection \<and> buffer w = None \<or>
      (state w = Member ConnectionPending \<or> state w = Member Viewing) \<and>
      (\<exists>b. buffer w = Some b \<and> pushed b = [LoginMessage n s VIEWER])) \<and>
   (\<exists>j k m. map state (viewers (run (Viewer_init a n s sys0) envs)) =
      replicate j (Member WaitingForConnection) @
      replicate k (Member ConnectionPending) @ replicate m (Member Viewing))"
proof -
  have "state (Viewer_init a n s sys0) = Member WaitingForConnection"
    by (simp add: Viewer_init_def)
  from run_Waiting_states [OF this, of envs] run_logged_in_once [of a n s sys0 envs]
  show ?thesis by blast
qed

theorem one_login_and_no_return_to_waiting_witness:
  "map state (viewers (run (Viewer_init (''127.0.0.1'', 9000) ''alice'' None \<lparr>payload = 0, System_t = 0\<rparr>)
       [(Fails ECONNREFUSED, []), (Connects, []), (Connects, [LoginSuccessMessage 7]),
        (Connects, [BroadcastMessage \<lparr>payload = 1, System_t = 5\<rparr>
           \<lparr>player = Player ''bob'', game_over = True, winner = Some (Player ''bob'')\<rparr>
           [(''alice'', 2), (''bob'', 5)]])])) =
     [Member WaitingForConnection, Member ConnectionPending, Member Viewing, Member Viewing] \<and>
   (\<exists>b. buffer (last (viewers (run (Viewer_init (''127.0.0.1'', 9000) ''alice'' None \<lparr>payload = 0, System_t = 0\<rparr>)
       [(Fails ECONNREFUSED, []), (Connects, []), (Connects, [LoginSuccessMessage 7]),
        (Connects, [BroadcastMessage \<lparr>payload = 1, System_t = 5\<rparr>
           \<lparr>player = Player ''bob'', game_over = True, winner = Some (Player ''bob'')\<rparr>
           [(''alice'', 2), (''bob'', 5)]])]))) = Some b \<and>
        pushed b = [LoginMessage ''alice'' None VIEWER])"
proof -
  let ?tr = "viewers (run (Viewer_init (''127.0.0.1'', 9000) ''alice'' None \<lparr>payload = 0, System_t = 0\<rparr>)
       [(Fails ECONNREFUSED, []), (Connects, []), (Connects, [LoginSuccessMessage 7]),
        (Connects, [BroadcastMessage \<lparr>payload = 1, System_t = 5\<rparr>
           \<lparr>player = Player ''bob'', game_over = True, winner = Some (Player ''bob'')\<rparr>
           [(''alice'', 2), (''bob'', 5)]])])"
  have states: "map state ?tr =
     [Member WaitingForConnection, Member ConnectionPending, Member Viewing, Member Viewing]"
    by code_simp
  then have ne: "?tr \<noteq> []" by auto
  then have mem: "last ?tr \<in> set ?tr" by (rule last_in_set)
  have "state (last ?tr) = last (map state ?tr)" using ne by (simp add: last_map)
  then have viewing: "state (last ?tr) = Member Viewing" using states by simp
  from one_login_and_no_return_to_waiting [of "(''127.0.0.1'', 9000)" "''alice''" None
        "\<lparr>payload = 0, System_t = 0\<rparr>"
        "[(Fails ECONNREFUSED, []), (Connects, []), (Connects, [LoginSuccessMessage 7]),
        (Connects, [BroadcastMessage \<lparr>payload = 1, System_t = 5\<rparr>
           \<lparr>player = Player ''bob'', game_over = True, winner = Some (Player ''bob'')\<rparr>
           [(''alice'', 2), (''bob'', 5)]])]"] mem
  have "state (last ?tr) = Member WaitingForConnection \<and> buffer (last ?tr) = None \<or>
      (state (last ?tr) = Member ConnectionPending \<or> state (last ?tr) = Member Viewing) \<and>
      (\<exists>b. buffer (last ?tr) = Some b \<and> pushed b = [LoginMessage ''alice'' None VIEWER])"
    by blast
  with viewing have "\<exists>b. buffer (last ?tr) = Some b \<and>
      pushed b = [LoginMessage ''alice'' None VIEWER]" by simp
  with states show ?thesis by blast
qed

lemma update_Pending_unexpected:
  assumes "state v = Member ConnectionPending" and "buffer v = Some b"
    and "incoming b @ arrived = m # ms"
    and "m \<noteq> ConnectionClosedMessage \<and> (\<forall>s. m \<noteq> LoginSuccessMessage s) \<and>
           (\<forall>reason. m \<noteq> LoginFailedMessage reason)"
  shows "update (c, arrived) v =
           Inr (v\<lparr>buffer := Some (b\<lparr>incoming := ms\<rparr>),
                  logged := logged v @ [(WARNING, Unexpected_message)]\<rparr>, Again)"
  using assms(4) update_Pending_msg [OF assms(1-3), of c] by (cases m) auto



lemma run_keeps_secret:
  "\<forall>w \<in> set (viewers (run v envs)). secret w = secret v \<and> name w = name v"
proof (rule run_invariant [where I = "\<lambda>w. secret w = secret v \<and> name w = name v"])
  fix env u u1 r
  assume "secret u = secret v \<and> name u = name v" and "update env u = Inr (u1, r)"
  then show "secret u1 = secret v \<and> name u1 = name v"
    using update_keeps_name_secret [of env u u1 r] by simp
qed simp

lemma run_Viewing_states_ex:
  "state v = Member Viewing \<Longrightarrow>
   \<exists>m. map state (viewers (run v envs)) = replicate m (Member Viewing)"
  using run_Viewing_states [of v envs] by blast

lemma run_Pending_until_login_success:
  assumes "state v = Member ConnectionPending" and "buffer v = Some b" and "incoming b = []"
    and "\<forall>m \<in> set pre. m \<noteq> ConnectionClosedMessage \<and> (\<forall>s. m \<noteq> LoginSuccessMessage s) \<and>
           (\<forall>reason. m \<noteq> LoginFailedMessage reason)"
  shows "\<exists>m. map state (viewers (run v (map (\<lambda>msg. (c, [msg])) (pre @ LoginSuccessMessage s # post)))) =
           replicate (length pre) (Member ConnectionPending) @ replicate (Suc m) (Member Viewing)"
  using assms
proof (induction pre arbitrary: v b)
  case Nil
  let ?v1 = "v\<lparr>buffer := Some (b\<lparr>incoming := []\<rparr>),
               logged := logged v @ [(INFO, Connected_secret s)],
               state := Member Viewing\<rparr>"
  have q: "incoming b @ [LoginSuccessMessage s] = LoginSuccessMessage s # []"
    using Nil.prems(3) by simp
  have step: "update (c, [LoginSuccessMessage s]) v = Inr (?v1, Again)"
    using update_Pending_msg [OF Nil.prems(1,2) q, of c] by simp
  have "state ?v1 = Member Viewing" by simp
  from run_Viewing_states_ex [OF this, of "map (\<lambda>msg. (c, [msg])) post"]
  obtain m where "map state (viewers (run ?v1 (map (\<lambda>msg. (c, [msg])) post))) =
      replicate m (Member Viewing)" by (rule exE)
  then have "map state (viewers (run v (map (\<lambda>msg. (c, [msg])) ([] @ LoginSuccessMessage s # post)))) =
      replicate (length ([] :: Message list)) (Member ConnectionPending) @
      replicate (Suc m) (Member Viewing)"
    using step by simp
  then show ?case by (rule exI)
next
  case (Cons x pre)
  let ?v1 = "v\<lparr>buffer := Some (b\<lparr>incoming := []\<rparr>),
               logged := logged v @ [(WARNING, Unexpected_message)]\<rparr>"
  have q: "incoming b @ [x] = x # []" using Cons.prems(3) by simp
  have x: "x \<noteq> ConnectionClosedMessage \<and> (\<forall>s. x \<noteq> LoginSuccessMessage s) \<and>
           (\<forall>reason. x \<noteq> LoginFailedMessage reason)"
    using Cons.prems(4) by simp
  have step: "update (c, [x]) v = Inr (?v1, Again)"
    by (rule update_Pending_unexpected [OF Cons.prems(1,2) q x])
  have s1: "state ?v1 = Member ConnectionPending" using Cons.prems(1) by simp
  have b1: "buffer ?v1 = Some (b\<lparr>incoming := []\<rparr>)" by simp
  have i1: "incoming (b\<lparr>incoming := []\<rparr>) = []" by simp
  have rest: "\<forall>m \<in> set pre. m \<noteq> ConnectionClosedMessage \<and> (\<forall>s. m \<noteq> LoginSuccessMessage s) \<and>
           (\<forall>reason. m \<noteq> LoginFailedMessage reason)"
    using Cons.prems(4) by simp
  from Cons.IH [OF s1 b1 i1 rest] obtain m where
    "map state (viewers (run ?v1 (map (\<lambda>msg. (c, [msg])) (pre @ LoginSuccessMessage s # post)))) =
       replicate (length pre) (Member ConnectionPending) @ replicate (Suc m) (Member Viewing)"
    by (rule exE)
  then have "map state (viewers (run v (map (\<lambda>msg. (c, [msg])) ((x # pre) @ LoginSuccessMessage s # post)))) =
       replicate (length (x # pre)) (Member ConnectionPending) @ replicate (Suc m) (Member Viewing)"
    using step s1 by simp
  then show ?case by (rule exI)
qed

text \<open>
  C1, as the code has it. A tick in \<open>ConnectionPending\<close> that pops \<open>LoginSuccess\<close> logs the
  returned secret at level INFO and sets the state to \<open>Viewing\<close>; it stores the secret
  nowhere: in every run the attribute \<open>secret\<close> keeps the value the viewer was configured
  with. From \<open>ConnectionPending\<close> the states of every run are first \<open>ConnectionPending\<close> and
  then \<open>Viewing\<close>, so \<open>Viewing\<close> is entered at most once and \<open>ConnectionPending\<close> is never
  entered again. When messages are fed one per tick and a \<open>LoginSuccess\<close> comes before any
  \<open>LoginFailed\<close> or \<open>ConnectionClosed\<close>, the state is \<open>ConnectionPending\<close> up to that tick and
  \<open>Viewing\<close> from it on.
\<close>

theorem login_success_enters_viewing_once:
  assumes "state v = Member ConnectionPending" and "buffer v = Some b"
  shows "(incoming b @ arrived = LoginSuccessMessage s # ms \<longrightarrow>
            update (c, arrived) v =
              Inr (v\<lparr>buffer := Some (b\<lparr>incoming := ms\<rparr>),
                     logged := logged v @ [(INFO, Connected_secret s)],
                     state := Member Viewing\<rparr>, Again)) \<and>
         (\<exists>k m. map state (viewers (run v envs)) =
            replicate k (Member ConnectionPending) @ replicate m (Member Viewing)) \<and>
         (\<forall>w \<in> set (viewers (run v envs)). secret w = secret v) \<and>
         (incoming b = [] \<and>
          (\<forall>m \<in> set pre. m \<noteq> ConnectionClosedMessage \<and> (\<forall>s. m \<noteq> LoginSuccessMessage s) \<and>
             (\<forall>reason. m \<noteq> LoginFailedMessage reason)) \<longrightarrow>
          (\<exists>m. map state (viewers (run v (map (\<lambda>msg. (c, [msg]))
                  (pre @ LoginSuccessMessage s # post)))) =
             replicate (length pre) (Member ConnectionPending) @
             replicate (Suc m) (Member Viewing)))"
proof -
  have step: "(incoming b @ arrived = LoginSuccessMessage s # ms \<longrightarrow>
            update (c, arrived) v =
              Inr (v\<lparr>buffer := Some (b\<lparr>incoming := ms\<rparr>),
                     logged := logged v @ [(INFO, Connected_secret s)],
                     state := Member Viewing\<rparr>, Again))"
  proof
    assume "incoming b @ arrived = LoginSuccessMessage s # ms"
    from update_Pending_msg [OF assms this, of c]
    show "update (c, arrived) v =
              Inr (v\<lparr>buffer := Some (b\<lparr>incoming := ms\<rparr>),
                     logged := logged v @ [(INFO, Connected_secret s)],
                     state := Member Viewing\<rparr>, Again)"
      by simp
  qed
  have shape: "(\<exists>k m. map state (viewers (run v envs)) =
            replicate k (Member ConnectionPending) @ replicate m (Member Viewing))"
    by (rule run_Pending_states [OF assms(1)])
  have kept: "(\<forall>w \<in> set (viewers (run v envs)). secret w = secret v)"
    using run_keeps_secret [of v envs] by simp
  have fed: "(incoming b = [] \<and>
          (\<forall>m \<in> set pre. m \<noteq> ConnectionClosedMessage \<and> (\<forall>s. m \<noteq> LoginSuccessMessage s) \<and>
             (\<forall>reason. m \<noteq> LoginFailedMessage reason)) \<longrightarrow>
          (\<exists>m. map state (viewers (run v (map (\<lambda>msg. (c, [msg]))
                  (pre @ LoginSuccessMessage s # post)))) =
             replicate (length pre) (Member ConnectionPending) @
             replicate (Suc m) (Member Viewing)))"
    using run_Pending_until_login_success [OF assms, of pre c s post] by simp
  from step shape kept fed show ?thesis by (intro conjI)
qed

theorem login_success_enters_viewing_once_witness:
  "state ((Viewer_init (''127.0.0.1'', 9000) ''alice'' None \<lparr>payload = 0, System_t = 0\<rparr>)
        \<lparr>state := Member ConnectionPending,
         buffer := Some \<lparr>pushed = [LoginMessage ''alice'' None VIEWER], incoming = []\<rparr>\<rparr>) = Member ConnectionPending \<and>
   update (Connects, [LoginSuccessMessage 7])
     ((Viewer_init (''127.0.0.1'', 9000) ''alice'' None \<lparr>payload = 0, System_t = 0\<rparr>)
        \<lparr>state := Member ConnectionPending,
         buffer := Some \<lparr>pushed = [LoginMessage ''alice'' None VIEWER], incoming = []\<rparr>\<rparr>) =
   Inr (((Viewer_init (''127.0.0.1'', 9000) ''alice'' None \<lparr>payload = 0, System_t = 0\<rparr>)
        \<lparr>state := Member ConnectionPending,
         buffer := Some \<lparr>pushed = [LoginMessage ''alice'' None VIEWER], incoming = []\<rparr>\<rparr>)
        \<lparr>buffer := Some \<lparr>pushed = [LoginMessage ''alice'' None VIEWER], incoming = []\<rparr>,
         logged := [(INFO, Connected_secret 7)],
         state := Member Viewing\<rparr>, Again)"
proof -
  have p: "state ((Viewer_init (''127.0.0.1'', 9000) ''alice'' None \<lparr>payload = 0, System_t = 0\<rparr>)
        \<lparr>state := Member ConnectionPending,
         buffer := Some \<lparr>pushed = [LoginMessage ''alice'' None VIEWER], incoming = []\<rparr>\<rparr>) = Member ConnectionPending"
    by simp
  have bf: "buffer ((Viewer_init (''127.0.0.1'', 9000) ''alice'' None \<lparr>payload = 0, System_t = 0\<rparr>)
        \<lparr>state := Member ConnectionPending,
         buffer := Some \<lparr>pushed = [LoginMessage ''alice'' None VIEWER], incoming = []\<rparr>\<rparr>) = Some \<lparr>pushed = [LoginMessage ''alice'' None VIEWER], incoming = []\<rparr>"
    by simp
  from login_success_enters_viewing_once [OF p bf, of "[LoginSuccessMessage 7]" 7 "[]" Connects]
  have "update (Connects, [LoginSuccessMessage 7])
     ((Viewer_init (''127.0.0.1'', 9000) ''alice'' None \<lparr>payload = 0, System_t = 0\<rparr>)
        \<lparr>state := Member ConnectionPending,
         buffer := Some \<lparr>pushed = [LoginMessage ''alice'' None VIEWER], incoming = []\<rparr>\<rparr>) =
   Inr (((Viewer_init (''127.0.0.1'', 9000) ''alice'' None \<lparr>payload = 0, System_t = 0\<rparr>)
        \<lparr>state := Member ConnectionPending,
         buffer := Some \<lparr>pushed = [LoginMessage ''alice'' None VIEWER], incoming = []\<rparr>\<rparr>)
        \<lparr>buffer := Some (\<lparr>pushed = [LoginMessage ''alice'' None VIEWER], incoming = []\<rparr>\<lparr>incoming := []\<rparr>),
         logged := logged ((Viewer_init (''127.0.0.1'', 9000) ''alice'' None \<lparr>payload = 0, System_t = 0\<rparr>)
        \<lparr>state := Member ConnectionPending,
         buffer := Some \<lparr>pushed = [LoginMessage ''alice'' None VIEWER], incoming = []\<rparr>\<rparr>) @ [(INFO, Connected_secret 7)],
         state := Member Viewing\<rparr>, Again)"
    by simp
  then show ?thesis by (simp add: Viewer_init_def)
qed

text \<open>
  C1 as stated has the client record the returned secret into the session. In the run
  from the constructor with no configured secret, the viewer that has received
  \<open>LoginSuccess\<close> with secret 7 is in \<open>Viewing\<close> and its \<open>secret\<close> is still \<open>None\<close>.
\<close>

theorem login_success_secret_not_recorded_counterexample:
  "map state (viewers (run (Viewer_init (''127.0.0.1'', 9000) ''alice'' None \<lparr>payload = 0, System_t = 0\<rparr>)
      [(Connects, []), (Connects, [LoginSuccessMessage 7])])) =
     [Member ConnectionPending, Member Viewing] \<and>
   secret (last (viewers (run (Viewer_init (''127.0.0.1'', 9000) ''alice'' None \<lparr>payload = 0, System_t = 0\<rparr>)
      [(Connects, []), (Connects, [LoginSuccessMessage 7])]))) = None \<and>
   secret (last (viewers (run (Viewer_init (''127.0.0.1'', 9000) ''alice'' None \<lparr>payload = 0, System_t = 0\<rparr>)
      [(Connects, []), (Connects, [LoginSuccessMessage 7])]))) \<noteq> Some 7 \<and>
   logged (last (viewers (run (Viewer_init (''127.0.0.1'', 9000) ''alice'' None \<lparr>payload = 0, System_t = 0\<rparr>)
      [(Connects, []), (Connects, [LoginSuccessMessage 7])]))) = [(INFO, Connected_secret 7)]"
  by code_simp

lemma run_broadcasts:
  assumes "state v = Member Viewing" and "buffer v = Some b" and "incoming b = []"
    and "\<forall>(sys, si, scores) \<in> set bs. game_over si \<longrightarrow> winner si \<noteq> None"
  shows "map system (viewers (run v (map (\<lambda>(sys, si, scores). (c, [BroadcastMessage sys si scores])) bs))) =
           map fst bs \<and>
         map state (viewers (run v (map (\<lambda>(sys, si, scores). (c, [BroadcastMessage sys si scores])) bs))) =
           replicate (length bs) (Member Viewing) \<and>
         messenger (last (v # viewers (run v (map (\<lambda>(sys, si, scores). (c, [BroadcastMessage sys si scores])) bs)))) =
           messenger v @
           concat (map (\<lambda>(sys, si, scores).
             (if game_over si then [Ev_game_over (player_name (the (winner si))) (System_t sys)]
              else []) @ [Ev_update_score scores (System_t sys), Ev_animate_shot]) bs)"
  using assms
proof (induction bs arbitrary: v b)
  case Nil
  then show ?case by simp
next
  case (Cons x bs)
  obtain sys si scores where x: "x = (sys, si, scores)" by (cases x)
  let ?v1 = "v\<lparr>buffer := Some (b\<lparr>incoming := []\<rparr>),
            turn_indicator := ''Active player: '' @ upper (player_name (player si)),
            system := sys,
            messenger := messenger v @
              (if game_over si then [Ev_game_over (player_name (the (winner si))) (System_t sys)]
               else []) @
              [Ev_update_score scores (System_t sys), Ev_animate_shot],
            controller := controller v @
              [Attach_system sys, Buildup, Build_shot_animation, Cue_hide_nodes]\<rparr>"
  have q: "incoming b @ [BroadcastMessage sys si scores] = BroadcastMessage sys si scores # []"
    using Cons.prems(3) by simp
  have wf: "game_over si \<longrightarrow> winner si \<noteq> None" using Cons.prems(4) x by simp
  have step: "update (c, [BroadcastMessage sys si scores]) v = Inr (?v1, Again)"
    by (rule update_Viewing_broadcast [OF Cons.prems(1,2) q wf])
  have s1: "state ?v1 = Member Viewing" using Cons.prems(1) by simp
  have b1: "buffer ?v1 = Some (b\<lparr>incoming := []\<rparr>)" by simp
  have i1: "incoming (b\<lparr>incoming := []\<rparr>) = []" by simp
  have rest: "\<forall>(sys, si, scores) \<in> set bs. game_over si \<longrightarrow> winner si \<noteq> None"
    using Cons.prems(4) by simp
  note IH = Cons.IH [OF s1 b1 i1 rest]
  have run_eq: "run v (map (\<lambda>(sys, si, scores). (c, [BroadcastMessage sys si scores])) (x # bs)) =
      Inr (?v1, Again) # run ?v1 (map (\<lambda>(sys, si, scores). (c, [BroadcastMessage sys si scores])) bs)"
    using step x by simp
  show ?case
    unfolding run_eq using IH x Cons.prems(1) by simp
qed

text \<open>
  C4, as the code has it. A tick in \<open>Viewing\<close> that pops a \<open>Broadcast\<close> whose shot-info
  names a winner when its game-over flag is set makes the snapshot of the message the viewer's only snapshot
  (whatever the previous one was), sets the turn indicator from the active player, sends
  the game-over event when and only when the flag is set, then the score-update event
  carrying the scores mapping of the message as it is, in its insertion order, then the
  shot-animation event, and leaves the state \<open>Viewing\<close>. For broadcasts fed one per tick,
  the snapshot after the i-th tick is the snapshot of the i-th broadcast, every state is
  \<open>Viewing\<close>, and the events sent are those of the broadcasts in order.
\<close>

theorem broadcast_replaces_snapshot_and_sends_triggers:
  assumes "state v = Member Viewing" and "buffer v = Some b"
  shows "(incoming b @ arrived = BroadcastMessage sys si scores # ms \<and>
          (game_over si \<longrightarrow> winner si \<noteq> None) \<longrightarrow>
          update (c, arrived) v =
            Inr (v\<lparr>buffer := Some (b\<lparr>incoming := ms\<rparr>),
                   turn_indicator := ''Active player: '' @ upper (player_name (player si)),
                   system := sys,
                   messenger := messenger v @
                     (if game_over si
                      then [Ev_game_over (player_name (the (winner si))) (System_t sys)]
                      else []) @
                     [Ev_update_score scores (System_t sys), Ev_animate_shot],
                   controller := controller v @
                     [Attach_system sys, Buildup, Build_shot_animation, Cue_hide_nodes]\<rparr>,
                 Again)) \<and>
         (incoming b = [] \<and>
          (\<forall>(sys, si, scores) \<in> set bs. game_over si \<longrightarrow> winner si \<noteq> None) \<longrightarrow>
          map system (viewers (run v (map (\<lambda>(sys, si, scores). (c, [BroadcastMessage sys si scores])) bs))) = map fst bs \<and>
          map state (viewers (run v (map (\<lambda>(sys, si, scores). (c, [BroadcastMessage sys si scores])) bs))) =
            replicate (length bs) (Member Viewing) \<and>
          messenger (last (v # viewers (run v (map (\<lambda>(sys, si, scores). (c, [BroadcastMessage sys si scores])) bs)))) =
            messenger v @
            concat (map (\<lambda>(sys, si, scores).
                   (if game_over si
                    then [Ev_game_over (player_name (the (winner si))) (System_t sys)]
                    else []) @ [Ev_update_score scores (System_t sys), Ev_animate_shot]) bs))"
proof -
  have step: "(incoming b @ arrived = BroadcastMessage sys si scores # ms \<and>
          (game_over si \<longrightarrow> winner si \<noteq> None) \<longrightarrow>
          update (c, arrived) v =
            Inr (v\<lparr>buffer := Some (b\<lparr>incoming := ms\<rparr>),
                   turn_indicator := ''Active player: '' @ upper (player_name (player si)),
                   system := sys,
                   messenger := messenger v @
                     (if game_over si
                      then [Ev_game_over (player_name (the (winner si))) (System_t sys)]
                      else []) @
                     [Ev_update_score scores (System_t sys), Ev_animate_shot],
                   controller := controller v @
                     [Attach_system sys, Buildup, Build_shot_animation, Cue_hide_nodes]\<rparr>,
                 Again))"
  proof
    assume a: "incoming b @ arrived = BroadcastMessage sys si scores # ms \<and>
          (game_over si \<longrightarrow> winner si \<noteq> None)"
    then have q: "incoming b @ arrived = BroadcastMessage sys si scores # ms"
      and wf: "game_over si \<longrightarrow> winner si \<noteq> None" by simp_all
    show "update (c, arrived) v =
            Inr (v\<lparr>buffer := Some (b\<lparr>incoming := ms\<rparr>),
                   turn_indicator := ''Active player: '' @ upper (player_name (player si)),
                   system := sys,
                   messenger := messenger v @
                     (if game_over si
                      then [Ev_game_over (player_name (the (winner si))) (System_t sys)]
                      else []) @
                     [Ev_update_score scores (System_t sys), Ev_animate_shot],
                   controller := controller v @
                     [Attach_system sys, Buildup, Build_shot_animation, Cue_hide_nodes]\<rparr>,
                 Again)"
      by (rule update_Viewing_broadcast [OF assms q wf])
  qed
  have fed: "(incoming b = [] \<and>
          (\<forall>(sys, si, scores) \<in> set bs. game_over si \<longrightarrow> winner si \<noteq> None) \<longrightarrow>
          map system (viewers (run v (map (\<lambda>(sys, si, scores). (c, [BroadcastMessage sys si scores])) bs))) = map fst bs \<and>
          map state (viewers (run v (map (\<lambda>(sys, si, scores). (c, [BroadcastMessage sys si scores])) bs))) =
            replicate (length bs) (Member Viewing) \<and>
          messenger (last (v # viewers (run v (map (\<lambda>(sys, si, scores). (c, [BroadcastMessage sys si scores])) bs)))) =
            messenger v @
            concat (map (\<lambda>(sys, si, scores).
                   (if game_over si
                    then [Ev_game_over (player_name (the (winner si))) (System_t sys)]
                    else []) @ [Ev_update_score scores (System_t sys), Ev_animate_shot]) bs))"
  proof
    assume a: "incoming b = [] \<and>
          (\<forall>(sys, si, scores) \<in> set bs. game_over si \<longrightarrow> winner si \<noteq> None)"
    then have e: "incoming b = []"
      and wf: "\<forall>(sys, si, scores) \<in> set bs. game_over si \<longrightarrow> winner si \<noteq> None"
      by simp_all
    show "map system (viewers (run v (map (\<lambda>(sys, si, scores). (c, [BroadcastMessage sys si scores])) bs))) = map fst bs \<and>
          map state (viewers (run v (map (\<lambda>(sys, si, scores). (c, [BroadcastMessage sys si scores])) bs))) =
            replicate (length bs) (Member Viewing) \<and>
          messenger (last (v # viewers (run v (map (\<lambda>(sys, si, scores). (c, [BroadcastMessage sys si scores])) bs)))) =
            messenger v @
            concat (map (\<lambda>(sys, si, scores).
                   (if game_over si
                    then [Ev_game_over (player_name (the (winner si))) (System_t sys)]
                    else []) @ [Ev_update_score scores (System_t sys), Ev_animate_shot]) bs)"
      by (rule run_broadcasts [OF assms e wf])
  qed
  from step fed show ?thesis by (rule conjI)
qed

theorem broadcast_replaces_snapshot_and_sends_triggers_witness:
  "state ((Viewer_init (''127.0.0.1'', 9000) ''alice'' None \<lparr>payload = 0, System_t = 0\<rparr>)
        \<lparr>state := Member Viewing,
         buffer := Some \<lparr>pushed = [LoginMessage ''alice'' None VIEWER], incoming = []\<rparr>\<rparr>) = Member Viewing \<and>
   map system (viewers (run ((Viewer_init (''127.0.0.1'', 9000) ''alice'' None \<lparr>payload = 0, System_t = 0\<rparr>)
        \<lparr>state := Member Viewing,
         buffer := Some \<lparr>pushed = [LoginMessage ''alice'' None VIEWER], incoming = []\<rparr>\<rparr>)
     [(Connects, [BroadcastMessage \<lparr>payload = 1, System_t = 3\<rparr>
          \<lparr>player = Player ''alice'', game_over = False, winner = None\<rparr> [(''alice'', 2), (''bob'', 4)]]),
      (Connects, [BroadcastMessage \<lparr>payload = 2, System_t = 5\<rparr>
          \<lparr>player = Player ''bob'', game_over = True, winner = Some (Player ''bob'')\<rparr> [(''alice'', 2), (''bob'', 5)]])])) =
     [\<lparr>payload = 1, System_t = 3\<rparr>, \<lparr>payload = 2, System_t = 5\<rparr>] \<and>
   map state (viewers (run ((Viewer_init (''127.0.0.1'', 9000) ''alice'' None \<lparr>payload = 0, System_t = 0\<rparr>)
        \<lparr>state := Member Viewing,
         buffer := Some \<lparr>pushed = [LoginMessage ''alice'' None VIEWER], incoming = []\<rparr>\<rparr>)
     [(Connects, [BroadcastMessage \<lparr>payload = 1, System_t = 3\<rparr>
          \<lparr>player = Player ''alice'', game_over = False, winner = None\<rparr> [(''alice'', 2), (''bob'', 4)]]),
      (Connects, [BroadcastMessage \<lparr>payload = 2, System_t = 5\<rparr>
          \<lparr>player = Player ''bob'', game_over = True, winner = Some (Player ''bob'')\<rparr> [(''alice'', 2), (''bob'', 5)]])])) =
     [Member Viewing, Member Viewing] \<and>
   messenger (last (viewers (run ((Viewer_init (''127.0.0.1'', 9000) ''alice'' None \<lparr>payload = 0, System_t = 0\<rparr>)
        \<lparr>state := Member Viewing,
         buffer := Some \<lparr>pushed = [LoginMessage ''alice'' None VIEWER], incoming = []\<rparr>\<rparr>)
     [(Connects, [BroadcastMessage \<lparr>payload = 1, System_t = 3\<rparr>
          \<lparr>player = Player ''alice'', game_over = False, winner = None\<rparr> [(''alice'', 2), (''bob'', 4)]]),
      (Connects, [BroadcastMessage \<lparr>payload = 2, System_t = 5\<rparr>
          \<lparr>player = Player ''bob'', game_over = True, winner = Some (Player ''bob'')\<rparr> [(''alice'', 2), (''bob'', 5)]])]))) =
     [Ev_update_score [(''alice'', 2), (''bob'', 4)] 3, Ev_animate_shot,
      Ev_game_over ''bob'' 5, Ev_update_score [(''alice'', 2), (''bob'', 5)] 5, Ev_animate_shot]"
proof -
  have p: "state ((Viewer_init (''127.0.0.1'', 9000) ''alice'' None \<lparr>payload = 0, System_t = 0\<rparr>)
        \<lparr>state := Member Viewing,
         buffer := Some \<lparr>pushed = [LoginMessage ''alice'' None VIEWER], incoming = []\<rparr>\<rparr>) = Member Viewing"
    by simp
  have bf: "buffer ((Viewer_init (''127.0.0.1'', 9000) ''alice'' None \<lparr>payload = 0, System_t = 0\<rparr>)
        \<lparr>state := Member Viewing,
         buffer := Some \<lparr>pushed = [LoginMessage ''alice'' None VIEWER], incoming = []\<rparr>\<rparr>) = Some \<lparr>pushed = [LoginMessage ''alice'' None VIEWER], incoming = []\<rparr>"
    by simp
  let ?v = "((Viewer_init (''127.0.0.1'', 9000) ''alice'' None \<lparr>payload = 0, System_t = 0\<rparr>)
        \<lparr>state := Member Viewing,
         buffer := Some \<lparr>pushed = [LoginMessage ''alice'' None VIEWER], incoming = []\<rparr>\<rparr>)"
  let ?bs = "([(\<lparr>payload = 1, System_t = 3\<rparr>, \<lparr>player = Player ''alice'', game_over = False, winner = None\<rparr>, [(''alice'', 2), (''bob'', 4)]),
     (\<lparr>payload = 2, System_t = 5\<rparr>, \<lparr>player = Player ''bob'', game_over = True, winner = Some (Player ''bob'')\<rparr>, [(''alice'', 2), (''bob'', 5)])] :: (System \<times> ShotInfo \<times> Scores) list)"
  let ?envs = "[(Connects, [BroadcastMessage \<lparr>payload = 1, System_t = 3\<rparr>
          \<lparr>player = Player ''alice'', game_over = False, winner = None\<rparr> [(''alice'', 2), (''bob'', 4)]]),
      (Connects, [BroadcastMessage \<lparr>payload = 2, System_t = 5\<rparr>
          \<lparr>player = Player ''bob'', game_over = True, winner = Some (Player ''bob'')\<rparr> [(''alice'', 2), (''bob'', 5)]])]"
  have e: "incoming \<lparr>pushed = [LoginMessage ''alice'' None VIEWER], incoming = []\<rparr> = []"
    by simp
  have wf: "\<forall>(sys, si, scores) \<in> set ?bs. game_over si \<longrightarrow> winner si \<noteq> None"
    by simp
  have envs: "map (\<lambda>(sys, si, scores). (Connects, [BroadcastMessage sys si scores])) ?bs = ?envs"
    by simp
  have m0: "messenger ?v = []"
    by (simp add: Viewer_init_def)
  have ne: "viewers (run ?v ?envs) \<noteq> []"
    by code_simp
  note t = broadcast_replaces_snapshot_and_sends_triggers [OF p bf, of "[]" undefined undefined
      undefined "[]" Connects ?bs]
  have r: "map system (viewers (run ?v ?envs)) = map fst ?bs \<and>
      map state (viewers (run ?v ?envs)) = replicate (length ?bs) (Member Viewing) \<and>
      messenger (last (?v # viewers (run ?v ?envs))) =
        messenger ?v @
        concat (map (\<lambda>(sys, si, scores).
                   (if game_over si
                    then [Ev_game_over (player_name (the (winner si))) (System_t sys)]
                    else []) @ [Ev_update_score scores (System_t sys), Ev_animate_shot]) ?bs)"
    using conjunct2 [OF t, THEN mp, OF conjI [OF e wf]] unfolding envs .
  from r have sys: "map system (viewers (run ?v ?envs)) =
      [\<lparr>payload = 1, System_t = 3\<rparr>, \<lparr>payload = 2, System_t = 5\<rparr>]"
    by (simp del: run.simps)
  from r have sts: "map state (viewers (run ?v ?envs)) = [Member Viewing, Member Viewing]"
    by (simp del: run.simps add: numeral_2_eq_2)
  from r ne m0 have evs: "messenger (last (viewers (run ?v ?envs))) =
     [Ev_update_score [(''alice'', 2), (''bob'', 4)] 3, Ev_animate_shot,
      Ev_game_over ''bob'' 5, Ev_update_score [(''alice'', 2), (''bob'', 5)] 5, Ev_animate_shot]"
    by (simp del: run.simps)
  from p sys sts evs show ?thesis by (intro conjI)
qed

text \<open>
  C4 as stated holds of each received \<open>Broadcast\<close>. In the run from the constructor that
  connects, logs in and then receives a broadcast whose game-over flag is set and whose
  winner is absent, the viewer is in \<open>Viewing\<close> and the tick raises \<open>AttributeError\<close> at
  \<open>winner.name\<close>: it returns no viewer, sends no event and ends the run.
\<close>

theorem broadcast_game_over_without_winner_counterexample:
  "state (last (viewers (run (Viewer_init (''127.0.0.1'', 9000) ''alice'' None \<lparr>payload = 0, System_t = 0\<rparr>)
      [(Connects, []), (Connects, [LoginSuccessMessage 7])]))) = Member Viewing \<and>
   update (Connects, [BroadcastMessage \<lparr>payload = 1, System_t = 5\<rparr>
          \<lparr>player = Player ''bob'', game_over = True, winner = None\<rparr>
          [(''alice'', 2), (''bob'', 5)]])
     (last (viewers (run (Viewer_init (''127.0.0.1'', 9000) ''alice'' None \<lparr>payload = 0, System_t = 0\<rparr>)
        [(Connects, []), (Connects, [LoginSuccessMessage 7])]))) = Inl AttributeError \<and>
   last (run (Viewer_init (''127.0.0.1'', 9000) ''alice'' None \<lparr>payload = 0, System_t = 0\<rparr>)
      [(Connects, []), (Connects, [LoginSuccessMessage 7]),
       (Connects, [BroadcastMessage \<lparr>payload = 1, System_t = 5\<rparr>
          \<lparr>player = Player ''bob'', game_over = True, winner = None\<rparr>
          [(''alice'', 2), (''bob'', 5)]]),
       (Connects, [])]) = Inl AttributeError"
  by code_simp

end
